theory Spec2Isabelle
  imports Complex_Main "HOL-Library.Word" "HOL-Library.AList" "HOL-Library.Multiset"
begin

section \<open>JavaScript values\<close>

text \<open>
  A JavaScript string is a sequence of UTF-16 code units, and \<open>length\<close> counts code
  units, as \<^verbatim>\<open>String.prototype.length\<close> does. The string literals of
  \<^verbatim>\<open>server.js\<close> are ASCII; \<open>lit\<close> embeds them.
\<close>

type_synonym jsstring = "16 word list"

definition lit :: "string \<Rightarrow> jsstring" where
  "lit s = map (\<lambda>c. of_nat (of_char c)) s"

text \<open>
  The code units that \<^verbatim>\<open>String.prototype.trim\<close> strips: ECMAScript's WhiteSpace
  and LineTerminator productions.
\<close>

definition is_space :: "16 word \<Rightarrow> bool" where
  "is_space c \<longleftrightarrow>
     c \<in> {0x9, 0xA, 0xB, 0xC, 0xD, 0x20, 0xA0, 0x1680, 0x2028, 0x2029,
          0x202F, 0x205F, 0x3000, 0xFEFF}
     \<or> (0x2000 \<le> c \<and> c \<le> 0x200A)"

definition trim :: "jsstring \<Rightarrow> jsstring" where
  "trim s = rev (dropWhile is_space (rev (dropWhile is_space s)))"

text \<open>
  A field of a parsed JSON request body. A field that is absent from the body
  destructures to \<open>JUndefined\<close>.
\<close>

datatype jsval =
    JUndefined
  | JNull
  | JBool bool
  | JNum rat
  | JStr jsstring
  | JArr "jsval list"
  | JObj "(jsstring \<times> jsval) list"

fun truthy :: "jsval \<Rightarrow> bool" where
  "truthy JUndefined = False"
| "truthy JNull = False"
| "truthy (JBool b) = b"
| "truthy (JNum n) = (n \<noteq> 0)"
| "truthy (JStr s) = (s \<noteq> [])"
| "truthy (JArr _) = True"
| "truthy (JObj _) = True"

text \<open>\<^verbatim>\<open>v || null\<close>\<close>

definition or_null :: "jsval \<Rightarrow> jsval" where
  "or_null v = (if truthy v then v else JNull)"

text \<open>
  The outcomes of a handler other than a 200 response: a 400 with the handler's message,
  a 404, a 500 carrying the store driver's message, and a \<^verbatim>\<open>TypeError\<close> thrown
  inside the handler (calling \<^verbatim>\<open>.trim\<close> on a value that has none).
\<close>

datatype error =
    ValidationError string
  | NotFound
  | StoreError string
  | TypeError

text \<open>\<^verbatim>\<open>!text || !text.trim()\<close>: throws when \<open>text\<close> is truthy and not a string.\<close>

definition blank :: "jsval \<Rightarrow> error + bool" where
  "blank v =
     (if \<not> truthy v then Inr True
      else case v of JStr t \<Rightarrow> Inr (trim t = []) | _ \<Rightarrow> Inl TypeError)"

text \<open>\<^verbatim>\<open>text.trim()\<close> once \<open>blank\<close> has let the value through.\<close>

definition trimmed :: "jsval \<Rightarrow> jsstring" where
  "trimmed v = (case v of JStr t \<Rightarrow> trim t | _ \<Rightarrow> [])"

definition MAX_LENGTH :: nat where
  "MAX_LENGTH = 280"

definition validMoods :: "jsstring list" where
  "validMoods = map lit [''none'', ''love'', ''happy'', ''sad'', ''angry'', ''anxious'', ''excited'']"

definition validTypes :: "jsstring list" where
  "validTypes = map lit [''love'', ''haha'', ''sad'', ''angry'', ''fire'']"

definition validReasons :: "jsstring list" where
  "validReasons = map lit [''spam'', ''inappropriate'', ''harassment'', ''hate_speech'',
     ''violence'', ''copyright'', ''other'']"

text \<open>\<^verbatim>\<open>list.includes(v)\<close> for a list of strings: only a string can be included.\<close>

definition includes_str :: "jsstring list \<Rightarrow> jsval \<Rightarrow> bool" where
  "includes_str xs v = (case v of JStr t \<Rightarrow> t \<in> set xs | _ \<Rightarrow> False)"

text \<open>\<^verbatim>\<open>validMoods.includes(mood) ? mood : 'none'\<close>\<close>

definition safeMood :: "jsval \<Rightarrow> jsstring" where
  "safeMood mood =
     (if includes_str validMoods mood then (case mood of JStr m \<Rightarrow> m | _ \<Rightarrow> lit ''none'')
      else lit ''none'')"


section \<open>The store\<close>

text \<open>
  The value SQLite holds for the \<^verbatim>\<open>:id\<close> segment of the URL once it is bound to a
  column of INTEGER affinity: \<open>KInt n\<close> when the text is an integer literal, \<open>KOther t\<close>
  otherwise. A \<open>KOther\<close> value equals no primary key. The child tables declare a
  foreign key on \<^verbatim>\<open>post_id\<close>, but \<^verbatim>\<open>server.js\<close> never switches foreign
  key enforcement on, so a child row holds whatever key it was given.
\<close>

datatype sqlkey = KInt int | KOther jsstring

text \<open>
  \<^verbatim>\<open>Number(req.params.id)\<close> as the JSON answer carries it: the same URL text read by
  JavaScript as a number, \<open>None\<close> (\<^verbatim>\<open>null\<close>) when that is \<^verbatim>\<open>NaN\<close> or infinite.
  JavaScript and SQLite read the text by different rules, so a handler that echoes the
  id takes this number as an input beside the key.
\<close>

type_synonym json_number = "rat option"

text \<open>
  What a column declared TEXT holds: NULL or a text. The driver binds a JavaScript
  string as that text, a boolean as the integer 1 or 0, a number that is a 32-bit integer
  as that integer and any other number as a REAL; the column's affinity turns integers
  and REALs into text. \<open>SqlTextOf v\<close> stands for the text made of a value whose text the
  model does not spell out (a REAL, an array).
\<close>

datatype sqltext = SqlNull | SqlText jsstring | SqlTextOf jsval

fun digits :: "nat \<Rightarrow> jsstring" where
  "digits n = (if n < 10 then [of_nat (48 + n)]
               else digits (n div 10) @ [of_nat (48 + n mod 10)])"

declare digits.simps [simp del]

definition decimal :: "int \<Rightarrow> jsstring" where
  "decimal i = (if i < 0 then 0x2D # digits (nat (- i)) else digits (nat i))"

definition is_int32 :: "rat \<Rightarrow> bool" where
  "is_int32 q \<longleftrightarrow> q = of_int \<lfloor>q\<rfloor> \<and> - 2147483648 \<le> \<lfloor>q\<rfloor> \<and> \<lfloor>q\<rfloor> \<le> 2147483647"

fun to_text_column :: "jsval \<Rightarrow> sqltext" where
  "to_text_column JUndefined = SqlNull"
| "to_text_column JNull = SqlNull"
| "to_text_column (JStr t) = SqlText t"
| "to_text_column (JBool b) = SqlText (if b then lit ''1'' else lit ''0'')"
| "to_text_column (JNum q) = (if is_int32 q then SqlText (decimal \<lfloor>q\<rfloor>) else SqlTextOf (JNum q))"
| "to_text_column (JObj kvs) = SqlText (lit ''[object Object]'')"
| "to_text_column (JArr vs) = SqlTextOf (JArr vs)"

text \<open>
  The rows of the four tables. Time is the store's clock in seconds:
  \<^verbatim>\<open>CURRENT_TIMESTAMP\<close> is a text of fixed width with one-second resolution, whose
  order as text is its order in time. The image column is declared TEXT. Counters are
  integers without a bound: the API only ever adds one to them.
\<close>

record post =
  p_id :: int
  p_text :: jsstring
  p_mood :: jsstring
  p_image :: sqltext
  p_likes :: int
  p_reposts :: int
  p_timestamp :: nat

record reaction =
  rx_id :: int
  rx_post_id :: sqlkey
  rx_type :: jsstring
  rx_timestamp :: nat

record reply =
  rp_id :: int
  rp_post_id :: sqlkey
  rp_text :: jsstring
  rp_timestamp :: nat

record report =
  rt_id :: int
  rt_post_id :: sqlkey
  rt_reason :: jsstring
  rt_timestamp :: nat

text \<open>
  Each table is the list of its rows in insertion order, with the AUTOINCREMENT
  counter of the table (the largest id ever handed out; the next id is one more).
\<close>

record store =
  posts :: "post list"
  reactions :: "reaction list"
  replies :: "reply list"
  reports :: "report list"
  seq_posts :: int
  seq_reactions :: int
  seq_replies :: int
  seq_reports :: int

text \<open>
  A statement may fail in the driver; the failure is an input of the model, the message
  the driver reports. A failed statement leaves the store as it was. A handler runs its
  statements one after the other on the store, with no other request in between.
\<close>

type_synonym fault = "string option"

text \<open>The statements a handler hands to the driver, in the order it issues them.\<close>

datatype stmt =
    SelectPosts bool
  | SelectBreakdown "int list"
  | InsertPost
  | UpdatePost sqlkey
  | DeleteReactions sqlkey
  | DeleteReplies sqlkey
  | DeleteReports sqlkey
  | DeletePost sqlkey
  | UpdateLikes sqlkey
  | SelectLikes sqlkey
  | UpdateReposts sqlkey
  | SelectReposts sqlkey
  | InsertReaction sqlkey
  | SelectReactionCounts sqlkey
  | SelectReplies sqlkey
  | InsertReply sqlkey
  | InsertReport sqlkey

text \<open>What a handler does: its response, the store it leaves, the statements it issued.\<close>

record 'a outcome =
  response :: "error + 'a"
  db :: store
  issued :: "stmt list"


section \<open>Creating a post\<close>

record body =
  body_text :: jsval
  body_mood :: jsval
  body_image :: jsval

record created =
  c_id :: int
  c_text :: jsstring
  c_mood :: jsstring
  c_image :: jsval
  c_likes :: int
  c_reposts :: int
  c_reactions :: "(jsstring \<times> nat) list"
  c_reply_count :: nat

text \<open>\<^verbatim>\<open>INSERT INTO posts (text, mood, image) VALUES (?, ?, ?)\<close>, giving \<^verbatim>\<open>lastID\<close>.\<close>

definition insert_post :: "fault \<Rightarrow> nat \<Rightarrow> jsstring \<Rightarrow> jsstring \<Rightarrow> jsval \<Rightarrow> store \<Rightarrow> string + (int \<times> store)" where
  "insert_post f now t m i s =
     (case f of
        Some e \<Rightarrow> Inl e
      | None \<Rightarrow>
          let n = seq_posts s + 1;
              row = \<lparr>p_id = n, p_text = t, p_mood = m, p_image = to_text_column i,
                     p_likes = 0, p_reposts = 0, p_timestamp = now\<rparr>
          in Inr (n, s\<lparr>posts := posts s @ [row], seq_posts := n\<rparr>))"

definition createPost :: "nat \<Rightarrow> fault \<Rightarrow> body \<Rightarrow> store \<Rightarrow> created outcome" where
  "createPost now f b s =
     (case blank (body_text b) of
        Inl e \<Rightarrow> \<lparr>response = Inl e, db = s, issued = []\<rparr>
      | Inr True \<Rightarrow>
          \<lparr>response = Inl (ValidationError ''Post cannot be empty''), db = s, issued = []\<rparr>
      | Inr False \<Rightarrow>
          if length (trimmed (body_text b)) > MAX_LENGTH
          then \<lparr>response = Inl (ValidationError ''Max 280 characters''), db = s, issued = []\<rparr>
          else
            let t = trimmed (body_text b);
                m = safeMood (body_mood b);
                i = or_null (body_image b)
            in (case insert_post f now t m i s of
                 Inl e \<Rightarrow> \<lparr>response = Inl (StoreError e), db = s, issued = [InsertPost]\<rparr>
               | Inr (lastID, s') \<Rightarrow>
                   \<lparr>response = Inr \<lparr>c_id = lastID, c_text = t, c_mood = m, c_image = i,
                                     c_likes = 0, c_reposts = 0, c_reactions = [],
                                     c_reply_count = 0\<rparr>,
                    db = s', issued = [InsertPost]\<rparr>))"


section \<open>Editing a post\<close>

record updated =
  u_id :: json_number
  u_text :: jsstring
  u_mood :: jsstring
  u_image :: jsval

text \<open>
  \<^verbatim>\<open>UPDATE posts SET text = ?, mood = ?, image = ? WHERE id = ?\<close>, giving
  \<^verbatim>\<open>changes\<close>, the number of rows the statement matched.
\<close>

definition update_post :: "fault \<Rightarrow> jsstring \<Rightarrow> jsstring \<Rightarrow> jsval \<Rightarrow> sqlkey \<Rightarrow> store \<Rightarrow> string + (nat \<times> store)" where
  "update_post f t m i k s =
     (case f of
        Some e \<Rightarrow> Inl e
      | None \<Rightarrow>
          Inr (length (filter (\<lambda>p. KInt (p_id p) = k) (posts s)),
               s\<lparr>posts := map (\<lambda>p. if KInt (p_id p) = k
                                     then p\<lparr>p_text := t, p_mood := m,
                                            p_image := to_text_column i\<rparr>
                                     else p) (posts s)\<rparr>))"

text \<open>\<^verbatim>\<open>typeof text !== 'string' || !text.trim()\<close>\<close>

definition not_string_or_blank :: "jsval \<Rightarrow> bool" where
  "not_string_or_blank v = (case v of JStr t \<Rightarrow> trim t = [] | _ \<Rightarrow> True)"

definition updatePost :: "fault \<Rightarrow> sqlkey \<Rightarrow> json_number \<Rightarrow> body \<Rightarrow> store \<Rightarrow> updated outcome" where
  "updatePost f k n b s =
     (if not_string_or_blank (body_text b)
      then \<lparr>response = Inl (ValidationError ''Post cannot be empty''), db = s, issued = []\<rparr>
      else if length (trimmed (body_text b)) > MAX_LENGTH
      then \<lparr>response = Inl (ValidationError ''Max 280 characters''), db = s, issued = []\<rparr>
      else
        let t = trimmed (body_text b);
            m = safeMood (body_mood b);
            i = or_null (body_image b)
        in case update_post f t m i k s of
             Inl e \<Rightarrow> \<lparr>response = Inl (StoreError e), db = s, issued = [UpdatePost k]\<rparr>
           | Inr (changes, s') \<Rightarrow>
               if changes = 0
               then \<lparr>response = Inl NotFound, db = s', issued = [UpdatePost k]\<rparr>
               else \<lparr>response = Inr \<lparr>u_id = n, u_text = t, u_mood = m, u_image = i\<rparr>,
                     db = s', issued = [UpdatePost k]\<rparr>)"


section \<open>Deleting a post\<close>

text \<open>
  The three statements on the child tables are issued without a callback: the handler
  does not look at their result.
\<close>

definition delete_reactions :: "sqlkey \<Rightarrow> store \<Rightarrow> store" where
  "delete_reactions k s = s\<lparr>reactions := filter (\<lambda>r. rx_post_id r \<noteq> k) (reactions s)\<rparr>"

definition delete_replies :: "sqlkey \<Rightarrow> store \<Rightarrow> store" where
  "delete_replies k s = s\<lparr>replies := filter (\<lambda>r. rp_post_id r \<noteq> k) (replies s)\<rparr>"

definition delete_reports :: "sqlkey \<Rightarrow> store \<Rightarrow> store" where
  "delete_reports k s = s\<lparr>reports := filter (\<lambda>r. rt_post_id r \<noteq> k) (reports s)\<rparr>"

text \<open>\<^verbatim>\<open>DELETE FROM posts WHERE id = ?\<close>, giving \<^verbatim>\<open>changes\<close>.\<close>

definition delete_post :: "fault \<Rightarrow> sqlkey \<Rightarrow> store \<Rightarrow> string + (nat \<times> store)" where
  "delete_post f k s =
     (case f of
        Some e \<Rightarrow> Inl e
      | None \<Rightarrow>
          Inr (length (filter (\<lambda>p. KInt (p_id p) = k) (posts s)),
               s\<lparr>posts := filter (\<lambda>p. KInt (p_id p) \<noteq> k) (posts s)\<rparr>))"

definition deletePost :: "fault \<Rightarrow> sqlkey \<Rightarrow> store \<Rightarrow> unit outcome" where
  "deletePost f k s =
     (let s1 = delete_reactions k s;
          s2 = delete_replies k s1;
          s3 = delete_reports k s2;
          q = [DeleteReactions k, DeleteReplies k, DeleteReports k, DeletePost k]
      in case delete_post f k s3 of
           Inl e \<Rightarrow> \<lparr>response = Inl (StoreError e), db = s3, issued = q\<rparr>
         | Inr (changes, s4) \<Rightarrow>
             if changes = 0
             then \<lparr>response = Inl NotFound, db = s4, issued = q\<rparr>
             else \<lparr>response = Inr (), db = s4, issued = q\<rparr>)"


section \<open>Likes and reposts\<close>

text \<open>\<^verbatim>\<open>UPDATE posts SET likes = likes + 1 WHERE id = ?\<close>\<close>

definition update_likes :: "fault \<Rightarrow> sqlkey \<Rightarrow> store \<Rightarrow> string + (nat \<times> store)" where
  "update_likes f k s =
     (case f of
        Some e \<Rightarrow> Inl e
      | None \<Rightarrow>
          Inr (length (filter (\<lambda>p. KInt (p_id p) = k) (posts s)),
               s\<lparr>posts := map (\<lambda>p. if KInt (p_id p) = k then p\<lparr>p_likes := p_likes p + 1\<rparr> else p)
                              (posts s)\<rparr>))"

text \<open>
  \<^verbatim>\<open>db.get\<close> yields the first matching row, or \<^verbatim>\<open>undefined\<close> when none matches.
\<close>

definition select_post :: "fault \<Rightarrow> sqlkey \<Rightarrow> store \<Rightarrow> string + post option" where
  "select_post f k s =
     (case f of
        Some e \<Rightarrow> Inl e
      | None \<Rightarrow>
          Inr (case filter (\<lambda>p. KInt (p_id p) = k) (posts s) of [] \<Rightarrow> None | p # _ \<Rightarrow> Some p))"

definition incrementLikes :: "fault \<Rightarrow> fault \<Rightarrow> sqlkey \<Rightarrow> store \<Rightarrow> int outcome" where
  "incrementLikes f1 f2 k s =
     (case update_likes f1 k s of
        Inl e \<Rightarrow> \<lparr>response = Inl (StoreError e), db = s, issued = [UpdateLikes k]\<rparr>
      | Inr (changes, s') \<Rightarrow>
          if changes = 0
          then \<lparr>response = Inl NotFound, db = s', issued = [UpdateLikes k]\<rparr>
          else (case select_post f2 k s' of
                 Inl e \<Rightarrow> \<lparr>response = Inl (StoreError e), db = s',
                           issued = [UpdateLikes k, SelectLikes k]\<rparr>
               | Inr None \<Rightarrow> \<lparr>response = Inl TypeError, db = s',
                               issued = [UpdateLikes k, SelectLikes k]\<rparr>
               | Inr (Some row) \<Rightarrow> \<lparr>response = Inr (p_likes row), db = s',
                                     issued = [UpdateLikes k, SelectLikes k]\<rparr>))"

text \<open>\<^verbatim>\<open>UPDATE posts SET reposts = reposts + 1 WHERE id = ?\<close>\<close>

definition update_reposts :: "fault \<Rightarrow> sqlkey \<Rightarrow> store \<Rightarrow> string + (nat \<times> store)" where
  "update_reposts f k s =
     (case f of
        Some e \<Rightarrow> Inl e
      | None \<Rightarrow>
          Inr (length (filter (\<lambda>p. KInt (p_id p) = k) (posts s)),
               s\<lparr>posts := map (\<lambda>p. if KInt (p_id p) = k then p\<lparr>p_reposts := p_reposts p + 1\<rparr> else p)
                              (posts s)\<rparr>))"

definition incrementReposts :: "fault \<Rightarrow> fault \<Rightarrow> sqlkey \<Rightarrow> store \<Rightarrow> int outcome" where
  "incrementReposts f1 f2 k s =
     (case update_reposts f1 k s of
        Inl e \<Rightarrow> \<lparr>response = Inl (StoreError e), db = s, issued = [UpdateReposts k]\<rparr>
      | Inr (changes, s') \<Rightarrow>
          if changes = 0
          then \<lparr>response = Inl NotFound, db = s', issued = [UpdateReposts k]\<rparr>
          else (case select_post f2 k s' of
                 Inl e \<Rightarrow> \<lparr>response = Inl (StoreError e), db = s',
                           issued = [UpdateReposts k, SelectReposts k]\<rparr>
               | Inr None \<Rightarrow> \<lparr>response = Inl TypeError, db = s',
                               issued = [UpdateReposts k, SelectReposts k]\<rparr>
               | Inr (Some row) \<Rightarrow> \<lparr>response = Inr (p_reposts row), db = s',
                                     issued = [UpdateReposts k, SelectReposts k]\<rparr>))"


section \<open>Reactions, replies and reports\<close>

text \<open>A string that has passed \<^verbatim>\<open>includes\<close>.\<close>

definition the_str :: "jsval \<Rightarrow> jsstring" where
  "the_str v = (case v of JStr t \<Rightarrow> t | _ \<Rightarrow> [])"

text \<open>\<^verbatim>\<open>INSERT INTO reactions (post_id, type) VALUES (?, ?)\<close>\<close>

definition insert_reaction :: "fault \<Rightarrow> nat \<Rightarrow> sqlkey \<Rightarrow> jsstring \<Rightarrow> store \<Rightarrow> string + (int \<times> store)" where
  "insert_reaction f now k t s =
     (case f of
        Some e \<Rightarrow> Inl e
      | None \<Rightarrow>
          let n = seq_reactions s + 1;
              row = \<lparr>rx_id = n, rx_post_id = k, rx_type = t, rx_timestamp = now\<rparr>
          in Inr (n, s\<lparr>reactions := reactions s @ [row], seq_reactions := n\<rparr>))"

text \<open>
  \<^verbatim>\<open>SELECT type, COUNT(*) as count FROM reactions WHERE post_id = ? GROUP BY type\<close>:
  one row for each type that occurs. SQL leaves the order of the groups open; the model
  lists them in the order \<open>remdups\<close> gives.
\<close>

definition select_reaction_counts :: "fault \<Rightarrow> sqlkey \<Rightarrow> store \<Rightarrow> string + (jsstring \<times> nat) list" where
  "select_reaction_counts f k s =
     (case f of
        Some e \<Rightarrow> Inl e
      | None \<Rightarrow>
          let sel = filter (\<lambda>r. rx_post_id r = k) (reactions s)
          in Inr (map (\<lambda>t. (t, length (filter (\<lambda>r. rx_type r = t) sel)))
                      (remdups (map rx_type sel))))"

text \<open>
  A JavaScript object used as a dictionary is an association list; assigning to a
  property is \<open>AList.update\<close>, reading an absent one gives \<open>None\<close>
  (\<^verbatim>\<open>undefined\<close>). The property names the handlers write are post ids and the
  reaction types found in the store, which the API takes from \<open>validTypes\<close>: none of
  them is a name that an object inherits.
\<close>

definition addReaction :: "nat \<Rightarrow> fault \<Rightarrow> fault \<Rightarrow> sqlkey \<Rightarrow> jsval \<Rightarrow> store \<Rightarrow> (jsstring \<times> nat) list outcome" where
  "addReaction now f1 f2 k type s =
     (if \<not> includes_str validTypes type
      then \<lparr>response = Inl (ValidationError ''Invalid reaction''), db = s, issued = []\<rparr>
      else case insert_reaction f1 now k (the_str type) s of
             Inl e \<Rightarrow> \<lparr>response = Inl (StoreError e), db = s, issued = [InsertReaction k]\<rparr>
           | Inr (lastID, s') \<Rightarrow>
               (case select_reaction_counts f2 k s' of
                  Inl e \<Rightarrow> \<lparr>response = Inl (StoreError e), db = s',
                            issued = [InsertReaction k, SelectReactionCounts k]\<rparr>
                | Inr rows \<Rightarrow>
                    \<lparr>response = Inr (foldl (\<lambda>reactions (t, c). AList.update t c reactions) [] rows),
                     db = s', issued = [InsertReaction k, SelectReactionCounts k]\<rparr>))"

text \<open>\<^verbatim>\<open>SELECT * FROM replies WHERE post_id = ? ORDER BY timestamp ASC\<close>\<close>

definition listReplies :: "fault \<Rightarrow> sqlkey \<Rightarrow> store \<Rightarrow> reply list outcome" where
  "listReplies f k s =
     (case f of
        Some e \<Rightarrow> \<lparr>response = Inl (StoreError e), db = s, issued = [SelectReplies k]\<rparr>
      | None \<Rightarrow>
          \<lparr>response = Inr (sort_key rp_timestamp (filter (\<lambda>r. rp_post_id r = k) (replies s))),
           db = s, issued = [SelectReplies k]\<rparr>)"

record reply_created =
  rc_id :: int
  rc_post_id :: json_number
  rc_text :: jsstring

text \<open>\<^verbatim>\<open>INSERT INTO replies (post_id, text) VALUES (?, ?)\<close>\<close>

definition insert_reply :: "fault \<Rightarrow> nat \<Rightarrow> sqlkey \<Rightarrow> jsstring \<Rightarrow> store \<Rightarrow> string + (int \<times> store)" where
  "insert_reply f now k t s =
     (case f of
        Some e \<Rightarrow> Inl e
      | None \<Rightarrow>
          let n = seq_replies s + 1;
              row = \<lparr>rp_id = n, rp_post_id = k, rp_text = t, rp_timestamp = now\<rparr>
          in Inr (n, s\<lparr>replies := replies s @ [row], seq_replies := n\<rparr>))"

definition addReply :: "nat \<Rightarrow> fault \<Rightarrow> sqlkey \<Rightarrow> json_number \<Rightarrow> jsval \<Rightarrow> store \<Rightarrow> reply_created outcome" where
  "addReply now f k n text s =
     (case blank text of
        Inl e \<Rightarrow> \<lparr>response = Inl e, db = s, issued = []\<rparr>
      | Inr True \<Rightarrow>
          \<lparr>response = Inl (ValidationError ''Reply cannot be empty''), db = s, issued = []\<rparr>
      | Inr False \<Rightarrow>
          (case insert_reply f now k (trimmed text) s of
             Inl e \<Rightarrow> \<lparr>response = Inl (StoreError e), db = s, issued = [InsertReply k]\<rparr>
           | Inr (lastID, s') \<Rightarrow>
               \<lparr>response = Inr \<lparr>rc_id = lastID, rc_post_id = n, rc_text = trimmed text\<rparr>,
                db = s', issued = [InsertReply k]\<rparr>))"

record report_created =
  rr_id :: int
  rr_post_id :: json_number
  rr_reason :: jsstring

text \<open>\<^verbatim>\<open>INSERT INTO reports (post_id, reason) VALUES (?, ?)\<close>\<close>

definition insert_report :: "fault \<Rightarrow> nat \<Rightarrow> sqlkey \<Rightarrow> jsstring \<Rightarrow> store \<Rightarrow> string + (int \<times> store)" where
  "insert_report f now k t s =
     (case f of
        Some e \<Rightarrow> Inl e
      | None \<Rightarrow>
          let n = seq_reports s + 1;
              row = \<lparr>rt_id = n, rt_post_id = k, rt_reason = t, rt_timestamp = now\<rparr>
          in Inr (n, s\<lparr>reports := reports s @ [row], seq_reports := n\<rparr>))"

definition addReport :: "nat \<Rightarrow> fault \<Rightarrow> sqlkey \<Rightarrow> json_number \<Rightarrow> jsval \<Rightarrow> store \<Rightarrow> report_created outcome" where
  "addReport now f k n reason s =
     (if \<not> includes_str validReasons reason
      then \<lparr>response = Inl (ValidationError ''Invalid reason''), db = s, issued = []\<rparr>
      else case insert_report f now k (the_str reason) s of
             Inl e \<Rightarrow> \<lparr>response = Inl (StoreError e), db = s, issued = [InsertReport k]\<rparr>
           | Inr (lastID, s') \<Rightarrow>
               \<lparr>response = Inr \<lparr>rr_id = lastID, rr_post_id = n, rr_reason = the_str reason\<rparr>,
                db = s', issued = [InsertReport k]\<rparr>)"


section \<open>Listing posts\<close>

text \<open>A row of the list query: the post's columns and the two counts.\<close>

record post_row = post +
  p_reaction_count :: nat
  p_reply_count :: nat

text \<open>A post as the list response carries it: the row and its reactions breakdown.\<close>

record listed = post_row +
  p_reactions :: "(jsstring \<times> nat) list"

text \<open>\<^verbatim>\<open>SELECT post_id, COUNT(*) ... GROUP BY post_id\<close> over the key column of a table.\<close>

definition group_count :: "sqlkey list \<Rightarrow> (sqlkey \<times> nat) list" where
  "group_count ks = map (\<lambda>k. (k, count_list ks k)) (remdups ks)"

text \<open>\<^verbatim>\<open>COALESCE(x, d)\<close>, and \<^verbatim>\<open>x || d\<close> for an \<open>x\<close> that is an object or undefined.\<close>

definition COALESCE :: "'a option \<Rightarrow> 'a \<Rightarrow> 'a" where
  "COALESCE x d = (case x of None \<Rightarrow> d | Some v \<Rightarrow> v)"

text \<open>
  \<^verbatim>\<open>ORDER BY e DESC\<close>. SQL leaves the order of rows with equal keys open; the model
  keeps them in storage order.
\<close>

definition order_by_desc :: "('a \<Rightarrow> 'k::linorder) \<Rightarrow> 'a list \<Rightarrow> 'a list" where
  "order_by_desc e rows = rev (sort_key e (rev rows))"

text \<open>\<^verbatim>\<open>(COALESCE(r.reaction_count, 0) + posts.reposts + posts.likes)\<close>\<close>

definition top_score :: "'a post_row_scheme \<Rightarrow> int" where
  "top_score r = int (p_reaction_count r) + p_reposts r + p_likes r"

text \<open>
  \<^verbatim>\<open>posts LEFT JOIN (... GROUP BY post_id) r ... LEFT JOIN (... GROUP BY post_id) rep\<close>:
  every post once, with the reaction count and the reply count of its id, and zero where
  the id has no group.
\<close>

definition joined :: "store \<Rightarrow> post_row list" where
  "joined s =
     (let r = group_count (map rx_post_id (reactions s));
          rep = group_count (map rp_post_id (replies s))
      in map (\<lambda>p. post.extend p (post_row.fields
                      (COALESCE (map_of r (KInt (p_id p))) 0)
                      (COALESCE (map_of rep (KInt (p_id p))) 0)))
             (posts s))"

text \<open>The rows of the list query, ordered by the chosen expression.\<close>

definition list_rows :: "bool \<Rightarrow> store \<Rightarrow> post_row list" where
  "list_rows byTop s =
     (if byTop then order_by_desc top_score (joined s)
      else order_by_desc p_timestamp (joined s))"

definition select_posts :: "fault \<Rightarrow> bool \<Rightarrow> store \<Rightarrow> string + post_row list" where
  "select_posts f byTop s = (case f of Some e \<Rightarrow> Inl e | None \<Rightarrow> Inr (list_rows byTop s))"

text \<open>
  The rows of
  \<^verbatim>\<open>SELECT post_id, type, COUNT(*) as count FROM reactions WHERE post_id IN (...)
  GROUP BY post_id, type\<close>:
  one row for each pair of post id and type that occurs among the selected reactions.
\<close>

definition breakdown_rows :: "int list \<Rightarrow> store \<Rightarrow> (sqlkey \<times> jsstring \<times> nat) list" where
  "breakdown_rows ids s =
     (let sel = filter (\<lambda>r. rx_post_id r \<in> set (map KInt ids)) (reactions s)
      in map (\<lambda>(k, t). (k, t, length (filter (\<lambda>r. rx_post_id r = k \<and> rx_type r = t) sel)))
             (remdups (map (\<lambda>r. (rx_post_id r, rx_type r)) sel)))"

definition select_breakdown :: "fault \<Rightarrow> int list \<Rightarrow> store \<Rightarrow> string + (sqlkey \<times> jsstring \<times> nat) list" where
  "select_breakdown f ids s = (case f of Some e \<Rightarrow> Inl e | None \<Rightarrow> Inr (breakdown_rows ids s))"

text \<open>
  \<^verbatim>\<open>if (!map[r.post_id]) map[r.post_id] = {}; map[r.post_id][r.type] = r.count;\<close>
\<close>

definition add_row :: "(sqlkey \<times> (jsstring \<times> nat) list) list \<Rightarrow> sqlkey \<times> jsstring \<times> nat
    \<Rightarrow> (sqlkey \<times> (jsstring \<times> nat) list) list" where
  "add_row m r =
     (case r of (k, t, c) \<Rightarrow>
        let m1 = (if map_of m k = None then AList.update k [] m else m)
        in AList.update k (AList.update t c (COALESCE (map_of m1 k) [])) m1)"

text \<open>The helper gives its callback the map, and the model also the statements it issued.\<close>

definition getReactionsForPosts :: "fault \<Rightarrow> store \<Rightarrow> int list
    \<Rightarrow> (sqlkey \<times> (jsstring \<times> nat) list) list \<times> stmt list" where
  "getReactionsForPosts f s ids =
     (if length ids = 0 then ([], [])
      else case select_breakdown f ids s of
             Inl e \<Rightarrow> ([], [SelectBreakdown ids])
           | Inr rows \<Rightarrow> (foldl add_row [] rows, [SelectBreakdown ids]))"

text \<open>\<^verbatim>\<open>{ ...row, reactions: reactionsMap[row.id] || {} }\<close>\<close>

definition with_reactions :: "(sqlkey \<times> (jsstring \<times> nat) list) list \<Rightarrow> post_row \<Rightarrow> listed" where
  "with_reactions reactionsMap row =
     post_row.extend row (listed.fields (COALESCE (map_of reactionsMap (KInt (p_id row))) []))"

definition listPosts :: "jsval \<Rightarrow> fault \<Rightarrow> fault \<Rightarrow> store \<Rightarrow> listed list outcome" where
  "listPosts sortMode f1 f2 s =
     (let byTop = (sortMode = JStr (lit ''top''))
      in case select_posts f1 byTop s of
           Inl e \<Rightarrow> \<lparr>response = Inl (StoreError e), db = s, issued = [SelectPosts byTop]\<rparr>
         | Inr rows \<Rightarrow>
             (case getReactionsForPosts f2 s (map p_id rows) of
                (reactionsMap, q) \<Rightarrow>
                  \<lparr>response = Inr (map (with_reactions reactionsMap) rows),
                   db = s, issued = SelectPosts byTop # q\<rparr>))"


section \<open>Auxiliary notions\<close>

text \<open>The sum of the per-type counts of a listed post's breakdown.\<close>

definition breakdown_total :: "listed \<Rightarrow> nat" where
  "breakdown_total r = sum_list (map snd (p_reactions r))"

text \<open>
  For a map under construction: the sum of the counts stored under a post id, and the
  reaction types already present under it.
\<close>

definition count_sum :: "(sqlkey \<times> (jsstring \<times> nat) list) list \<Rightarrow> sqlkey \<Rightarrow> nat" where
  "count_sum m k = sum_list (map snd (COALESCE (map_of m k) []))"

definition types_at :: "(sqlkey \<times> (jsstring \<times> nat) list) list \<Rightarrow> sqlkey \<Rightarrow> jsstring set" where
  "types_at m k = fst ` set (COALESCE (map_of m k) [])"

text \<open>
  What PRIMARY KEY AUTOINCREMENT maintains on the posts table: ids are unique and none
  exceeds the counter.
\<close>

definition keys_ok :: "store \<Rightarrow> bool" where
  "keys_ok s \<longleftrightarrow>
     distinct (map p_id (posts s)) \<and> (\<forall>n \<in> set (map p_id (posts s)). n \<le> seq_posts s)"


section \<open>Example stores\<close>

text \<open>The store after the schema has been created: four empty tables.\<close>

definition empty_store :: store where
  "empty_store = \<lparr>posts = [], reactions = [], replies = [], reports = [],
     seq_posts = 0, seq_reactions = 0, seq_replies = 0, seq_reports = 0\<rparr>"

text \<open>
  Two posts: the first has five likes, a reply and a report; the second, posted later, has
  three reactions of two types.
\<close>

definition post1 :: post where
  "post1 = \<lparr>p_id = 1, p_text = lit ''hi'', p_mood = lit ''none'', p_image = SqlNull,
             p_likes = 5, p_reposts = 0, p_timestamp = 10\<rparr>"

definition post2 :: post where
  "post2 = \<lparr>p_id = 2, p_text = lit ''yo'', p_mood = lit ''sad'', p_image = SqlNull,
             p_likes = 0, p_reposts = 1, p_timestamp = 20\<rparr>"

definition demo_store :: store where
  "demo_store =
     \<lparr>posts = [post1, post2],
      reactions = [\<lparr>rx_id = 1, rx_post_id = KInt 2, rx_type = lit ''love'', rx_timestamp = 21\<rparr>,
                   \<lparr>rx_id = 2, rx_post_id = KInt 2, rx_type = lit ''fire'', rx_timestamp = 22\<rparr>,
                   \<lparr>rx_id = 3, rx_post_id = KInt 2, rx_type = lit ''love'', rx_timestamp = 23\<rparr>],
      replies = [\<lparr>rp_id = 1, rp_post_id = KInt 1, rp_text = lit ''ok'', rp_timestamp = 11\<rparr>],
      reports = [\<lparr>rt_id = 1, rt_post_id = KInt 1, rt_reason = lit ''spam'', rt_timestamp = 12\<rparr>],
      seq_posts = 2, seq_reactions = 3, seq_replies = 1, seq_reports = 1\<rparr>"

text \<open>The two posts as a list response without failures carries them.\<close>

definition listed1 :: listed where
  "listed1 = \<lparr>p_id = 1, p_text = lit ''hi'', p_mood = lit ''none'', p_image = SqlNull,
               p_likes = 5, p_reposts = 0, p_timestamp = 10,
               p_reaction_count = 0, p_reply_count = 1, p_reactions = []\<rparr>"

definition listed2 :: listed where
  "listed2 = \<lparr>p_id = 2, p_text = lit ''yo'', p_mood = lit ''sad'', p_image = SqlNull,
               p_likes = 0, p_reposts = 1, p_timestamp = 20,
               p_reaction_count = 3, p_reply_count = 0,
               p_reactions = [(lit ''fire'', 1), (lit ''love'', 2)]\<rparr>"


section \<open>Validation of strings\<close>

lemma trim_Nil: "trim [] = []"
  by (simp add: trim_def)

lemma blank_JStr: "blank (JStr t) = Inr (trim t = [])"
  by (auto simp: blank_def trim_Nil)

lemma trimmed_JStr: "trimmed (JStr t) = trim t"
  by (simp add: trimmed_def)

lemma not_string_or_blank_JStr: "not_string_or_blank (JStr t) = (trim t = [])"
  by (simp add: not_string_or_blank_def)

lemma trim_letters:
  "trim (replicate n 0x61) = replicate n 0x61"
  by (simp add: trim_def is_space_def)

lemma trim_hi: "trim (lit ''hi'') = lit ''hi''"
  by (simp add: trim_def is_space_def lit_def)


section \<open>The primary key of the posts table\<close>

text \<open>
  Every handler keeps the ids of the posts table unique, so the stores the API can reach
  from the empty one have unique post ids.
\<close>

lemma map_id_on_key:
  "(\<And>q. p_id (g q) = p_id q) \<Longrightarrow>
   map p_id (map (\<lambda>q. if KInt (p_id q) = k then g q else q) ps) = map p_id ps"
  by (induction ps) simp_all

lemma keys_ok_empty: "keys_ok empty_store"
  by (simp add: keys_ok_def empty_store_def)

lemma keys_ok_same_ids:
  "keys_ok s \<Longrightarrow> map p_id (posts s') = map p_id (posts s) \<Longrightarrow> seq_posts s' = seq_posts s
   \<Longrightarrow> keys_ok s'"
  by (simp add: keys_ok_def)

lemma keys_ok_createPost: "keys_ok s \<Longrightarrow> keys_ok (db (createPost now f b s))"
proof -
  assume ok: "keys_ok s"
  have fresh: "keys_ok (s\<lparr>posts := posts s @ [row\<lparr>p_id := seq_posts s + 1\<rparr>],
                          seq_posts := seq_posts s + 1\<rparr>)" for row :: post
    using ok by (fastforce simp: keys_ok_def)
  show ?thesis
  proof (cases "blank (body_text b)")
    case (Inl e)
    with ok show ?thesis by (simp add: createPost_def)
  next
    case (Inr empty)
    show ?thesis
    proof (cases "empty \<or> length (trimmed (body_text b)) > MAX_LENGTH \<or> f \<noteq> None")
      case True
      with Inr ok show ?thesis
        by (auto simp: createPost_def insert_post_def split: bool.splits)
    next
      case False
      with Inr have "db (createPost now f b s) =
          s\<lparr>posts := posts s @ [\<lparr>p_id = seq_posts s + 1, p_text = trimmed (body_text b),
                 p_mood = safeMood (body_mood b), p_image = to_text_column (or_null (body_image b)),
                 p_likes = 0, p_reposts = 0, p_timestamp = now\<rparr>],
            seq_posts := seq_posts s + 1\<rparr>"
        by (simp add: createPost_def insert_post_def Let_def)
      with fresh [of "\<lparr>p_id = 0, p_text = trimmed (body_text b),
                 p_mood = safeMood (body_mood b), p_image = to_text_column (or_null (body_image b)),
                 p_likes = 0, p_reposts = 0, p_timestamp = now\<rparr>"]
      show ?thesis by simp
    qed
  qed
qed

lemma keys_ok_updatePost: "keys_ok s \<Longrightarrow> keys_ok (db (updatePost f k n b s))"
proof -
  assume ok: "keys_ok s"
  let ?g = "\<lambda>p. p\<lparr>p_text := trimmed (body_text b), p_mood := safeMood (body_mood b),
                   p_image := to_text_column (or_null (body_image b))\<rparr>"
  let ?s' = "s\<lparr>posts := map (\<lambda>p. if KInt (p_id p) = k then ?g p else p) (posts s)\<rparr>"
  have ok': "keys_ok ?s'"
    using map_id_on_key [of ?g k "posts s"]
    by (intro keys_ok_same_ids [OF ok]) simp_all
  have "db (updatePost f k n b s) = s \<or> db (updatePost f k n b s) = ?s'"
    by (cases f) (simp_all add: updatePost_def update_post_def Let_def)
  with ok ok' show ?thesis by auto
qed

lemma keys_ok_deletePost: "keys_ok s \<Longrightarrow> keys_ok (db (deletePost f k s))"
proof -
  assume ok: "keys_ok s"
  have sub: "distinct (map p_id (filter P (posts s)))"
    "\<forall>n \<in> set (map p_id (filter P (posts s))). n \<le> seq_posts s" for P
    using ok by (auto simp: keys_ok_def distinct_map_filter)
  show ?thesis
    using ok sub
    by (cases f) (simp_all add: deletePost_def delete_post_def delete_reactions_def
        delete_replies_def delete_reports_def keys_ok_def Let_def)
qed

lemma keys_ok_incrementLikes: "keys_ok s \<Longrightarrow> keys_ok (db (incrementLikes f1 f2 k s))"
proof -
  assume ok: "keys_ok s"
  let ?s' = "s\<lparr>posts := map (\<lambda>p. if KInt (p_id p) = k then p\<lparr>p_likes := p_likes p + 1\<rparr> else p)
                              (posts s)\<rparr>"
  have ok': "keys_ok ?s'"
    using map_id_on_key [of "\<lambda>p. p\<lparr>p_likes := p_likes p + 1\<rparr>" k "posts s"]
    by (intro keys_ok_same_ids [OF ok]) simp_all
  have "db (incrementLikes f1 f2 k s) = s \<or> db (incrementLikes f1 f2 k s) = ?s'"
    by (cases f1; cases f2)
      (simp_all add: incrementLikes_def update_likes_def select_post_def split: list.splits)
  with ok ok' show ?thesis by auto
qed

lemma keys_ok_incrementReposts: "keys_ok s \<Longrightarrow> keys_ok (db (incrementReposts f1 f2 k s))"
proof -
  assume ok: "keys_ok s"
  let ?s' = "s\<lparr>posts := map (\<lambda>p. if KInt (p_id p) = k then p\<lparr>p_reposts := p_reposts p + 1\<rparr> else p)
                              (posts s)\<rparr>"
  have ok': "keys_ok ?s'"
    using map_id_on_key [of "\<lambda>p. p\<lparr>p_reposts := p_reposts p + 1\<rparr>" k "posts s"]
    by (intro keys_ok_same_ids [OF ok]) simp_all
  have "db (incrementReposts f1 f2 k s) = s \<or> db (incrementReposts f1 f2 k s) = ?s'"
    by (cases f1; cases f2)
      (simp_all add: incrementReposts_def update_reposts_def select_post_def split: list.splits)
  with ok ok' show ?thesis by auto
qed

lemma keys_ok_addReaction: "keys_ok s \<Longrightarrow> keys_ok (db (addReaction now f1 f2 k type s))"
  by (cases f1; cases f2)
    (simp_all add: addReaction_def insert_reaction_def select_reaction_counts_def keys_ok_def Let_def)

lemma keys_ok_addReport: "keys_ok s \<Longrightarrow> keys_ok (db (addReport now f k n reason s))"
  by (cases f) (simp_all add: addReport_def insert_report_def keys_ok_def Let_def)

lemma keys_ok_addReply: "keys_ok s \<Longrightarrow> keys_ok (db (addReply now f k n text s))"
proof (cases "blank text")
  case (Inl e)
  then show "keys_ok s \<Longrightarrow> ?thesis" by (simp add: addReply_def)
next
  case (Inr empty)
  then show "keys_ok s \<Longrightarrow> ?thesis"
    by (cases empty; cases f) (simp_all add: addReply_def insert_reply_def keys_ok_def Let_def)
qed

lemma keys_ok_demo: "keys_ok demo_store"
  by (simp add: keys_ok_def demo_store_def post1_def post2_def)


lemmas demo_defs = demo_store_def post1_def post2_def


section \<open>The length gate of createPost\<close>

text \<open>
  Claim C4. For a text that is a string, createPost succeeds when the trimmed text is
  non-empty and has at most 280 code units: it answers with the trimmed text, whole, and
  appends a post holding it. When the trimmed text is empty or longer than 280 code
  units it answers with a validation error and leaves the store alone, whether or not the
  store would have failed: nothing is truncated and nothing is inserted. Length is
  counted as JavaScript counts it, in UTF-16 code units. The witness runs a text of 280
  code units, which is accepted, and one of 281, which is rejected.
\<close>

theorem createPost_text_gate:
  "(trim t \<noteq> [] \<and> length (trim t) \<le> 280 \<longrightarrow>
      response (createPost now None \<lparr>body_text = JStr t, body_mood = m, body_image = i\<rparr> s)
        = Inr \<lparr>c_id = seq_posts s + 1, c_text = trim t, c_mood = safeMood m, c_image = or_null i,
                c_likes = 0, c_reposts = 0, c_reactions = [], c_reply_count = 0\<rparr>
      \<and> posts (db (createPost now None \<lparr>body_text = JStr t, body_mood = m, body_image = i\<rparr> s))
        = posts s @ [\<lparr>p_id = seq_posts s + 1, p_text = trim t, p_mood = safeMood m,
                       p_image = to_text_column (or_null i), p_likes = 0, p_reposts = 0, p_timestamp = now\<rparr>])
   \<and> (trim t = [] \<or> length (trim t) > 280 \<longrightarrow>
      (\<exists>msg. response (createPost now f \<lparr>body_text = JStr t, body_mood = m, body_image = i\<rparr> s)
        = Inl (ValidationError msg))
      \<and> db (createPost now f \<lparr>body_text = JStr t, body_mood = m, body_image = i\<rparr> s) = s
      \<and> issued (createPost now f \<lparr>body_text = JStr t, body_mood = m, body_image = i\<rparr> s) = [])"
  by (auto simp: createPost_def blank_JStr trimmed_JStr insert_post_def MAX_LENGTH_def Let_def
      split: bool.splits)

theorem createPost_text_gate_witness:
  "response (createPost 0 None \<lparr>body_text = JStr (replicate 280 0x61), body_mood = JUndefined,
       body_image = JUndefined\<rparr> empty_store)
     = Inr \<lparr>c_id = 1, c_text = replicate 280 0x61, c_mood = lit ''none'', c_image = JNull,
             c_likes = 0, c_reposts = 0, c_reactions = [], c_reply_count = 0\<rparr>
   \<and> (\<exists>msg. response (createPost 0 None \<lparr>body_text = JStr (replicate 281 0x61),
         body_mood = JUndefined, body_image = JUndefined\<rparr> empty_store)
       = Inl (ValidationError msg))
   \<and> db (createPost 0 None \<lparr>body_text = JStr (replicate 281 0x61), body_mood = JUndefined,
       body_image = JUndefined\<rparr> empty_store) = empty_store"
  using createPost_text_gate [of "replicate 280 0x61" 0 JUndefined JUndefined empty_store None]
    createPost_text_gate [of "replicate 281 0x61" 0 JUndefined JUndefined empty_store None]
  by (simp add: trim_letters empty_store_def safeMood_def includes_str_def or_null_def)


section \<open>The image of a post\<close>

lemma update_post_None:
  "update_post None t m i k s =
     Inr (length (filter (\<lambda>p. KInt (p_id p) = k) (posts s)),
          s\<lparr>posts := map (\<lambda>p. if KInt (p_id p) = k
                                then p\<lparr>p_text := t, p_mood := m, p_image := to_text_column i\<rparr>
                                else p) (posts s)\<rparr>)"
  by (simp add: update_post_def)

lemma updatePost_valid:
  "trim t \<noteq> [] \<Longrightarrow> length (trim t) \<le> 280 \<Longrightarrow>
   updatePost None k n \<lparr>body_text = JStr t, body_mood = m, body_image = i\<rparr> s =
     (if filter (\<lambda>p. KInt (p_id p) = k) (posts s) = []
      then \<lparr>response = Inl NotFound,
            db = s\<lparr>posts := map (\<lambda>p. if KInt (p_id p) = k
                                then p\<lparr>p_text := trim t, p_mood := safeMood m, p_image := to_text_column (or_null i)\<rparr>
                                else p) (posts s)\<rparr>,
            issued = [UpdatePost k]\<rparr>
      else \<lparr>response = Inr \<lparr>u_id = n, u_text = trim t, u_mood = safeMood m,
                             u_image = or_null i\<rparr>,
            db = s\<lparr>posts := map (\<lambda>p. if KInt (p_id p) = k
                                then p\<lparr>p_text := trim t, p_mood := safeMood m, p_image := to_text_column (or_null i)\<rparr>
                                else p) (posts s)\<rparr>,
            issued = [UpdatePost k]\<rparr>)"
  by (simp add: updatePost_def not_string_or_blank_JStr trimmed_JStr update_post_None
      MAX_LENGTH_def Let_def)

lemma posts_updatePost:
  "trim t \<noteq> [] \<Longrightarrow> length (trim t) \<le> 280 \<Longrightarrow>
   posts (db (updatePost None k n \<lparr>body_text = JStr t, body_mood = m, body_image = i\<rparr> s)) =
     map (\<lambda>p. if KInt (p_id p) = k
               then p\<lparr>p_text := trim t, p_mood := safeMood m, p_image := to_text_column (or_null i)\<rparr>
               else p) (posts s)"
  by (simp add: updatePost_valid)

lemma response_updatePost:
  "trim t \<noteq> [] \<Longrightarrow> length (trim t) \<le> 280 \<Longrightarrow>
   response (updatePost None k n \<lparr>body_text = JStr t, body_mood = m, body_image = i\<rparr> s) =
     (if filter (\<lambda>p. KInt (p_id p) = k) (posts s) = [] then Inl NotFound
      else Inr \<lparr>u_id = n, u_text = trim t, u_mood = safeMood m, u_image = or_null i\<rparr>)"
  by (simp add: updatePost_valid)

lemma decimal_5: "decimal 5 = lit ''5''"
  by (simp add: decimal_def digits.simps [of 5] lit_def)

lemma to_text_column_5: "to_text_column (JNum 5) = SqlText (lit ''5'')"
  by (simp add: is_int32_def decimal_5)





section \<open>What updatePost leaves alone\<close>

text \<open>
  Claim C6. With a valid text, updatePost keeps the posts table row for row: every row
  keeps its id, likes, reposts and timestamp; a row of the given id is the old row with
  text, mood and image overwritten; every other row is the old row. The store differs
  from the old one in the posts table only, so reactions, replies and reports are
  untouched. The answer is NotFound exactly when no post has the id.
\<close>

theorem updatePost_frame:
  assumes "trim t \<noteq> []" and "length (trim t) \<le> 280"
  shows "length (posts (db (updatePost None k n \<lparr>body_text = JStr t, body_mood = m, body_image = i\<rparr> s)))
           = length (posts s)
       \<and> (\<forall>j < length (posts s).
             p_id (posts (db (updatePost None k n \<lparr>body_text = JStr t, body_mood = m, body_image = i\<rparr> s)) ! j)
               = p_id (posts s ! j)
           \<and> p_likes (posts (db (updatePost None k n \<lparr>body_text = JStr t, body_mood = m, body_image = i\<rparr> s)) ! j)
               = p_likes (posts s ! j)
           \<and> p_reposts (posts (db (updatePost None k n \<lparr>body_text = JStr t, body_mood = m, body_image = i\<rparr> s)) ! j)
               = p_reposts (posts s ! j)
           \<and> p_timestamp (posts (db (updatePost None k n \<lparr>body_text = JStr t, body_mood = m, body_image = i\<rparr> s)) ! j)
               = p_timestamp (posts s ! j)
           \<and> (KInt (p_id (posts s ! j)) = k \<longrightarrow>
                posts (db (updatePost None k n \<lparr>body_text = JStr t, body_mood = m, body_image = i\<rparr> s)) ! j
                  = (posts s ! j)\<lparr>p_text := trim t, p_mood := safeMood m, p_image := to_text_column (or_null i)\<rparr>)
           \<and> (KInt (p_id (posts s ! j)) \<noteq> k \<longrightarrow>
                posts (db (updatePost None k n \<lparr>body_text = JStr t, body_mood = m, body_image = i\<rparr> s)) ! j
                  = posts s ! j))
       \<and> db (updatePost None k n \<lparr>body_text = JStr t, body_mood = m, body_image = i\<rparr> s)
           = s\<lparr>posts := posts (db (updatePost None k n \<lparr>body_text = JStr t, body_mood = m, body_image = i\<rparr> s))\<rparr>
       \<and> reactions (db (updatePost None k n \<lparr>body_text = JStr t, body_mood = m, body_image = i\<rparr> s)) = reactions s
       \<and> replies (db (updatePost None k n \<lparr>body_text = JStr t, body_mood = m, body_image = i\<rparr> s)) = replies s
       \<and> reports (db (updatePost None k n \<lparr>body_text = JStr t, body_mood = m, body_image = i\<rparr> s)) = reports s
       \<and> (response (updatePost None k n \<lparr>body_text = JStr t, body_mood = m, body_image = i\<rparr> s) = Inl NotFound
            \<longleftrightarrow> (\<forall>p \<in> set (posts s). KInt (p_id p) \<noteq> k))"
proof -
  let ?o = "updatePost None k n \<lparr>body_text = JStr t, body_mood = m, body_image = i\<rparr> s"
  let ?g = "\<lambda>p. if KInt (p_id p) = k
               then p\<lparr>p_text := trim t, p_mood := safeMood m, p_image := to_text_column (or_null i)\<rparr> else p"
  have ps: "posts (db ?o) = map ?g (posts s)"
    by (rule posts_updatePost [OF assms])
  have len: "length (posts (db ?o)) = length (posts s)"
    by (simp add: ps)
  have rows: "\<forall>j < length (posts s).
             p_id (posts (db ?o) ! j) = p_id (posts s ! j)
           \<and> p_likes (posts (db ?o) ! j) = p_likes (posts s ! j)
           \<and> p_reposts (posts (db ?o) ! j) = p_reposts (posts s ! j)
           \<and> p_timestamp (posts (db ?o) ! j) = p_timestamp (posts s ! j)
           \<and> (KInt (p_id (posts s ! j)) = k \<longrightarrow>
                posts (db ?o) ! j
                  = (posts s ! j)\<lparr>p_text := trim t, p_mood := safeMood m, p_image := to_text_column (or_null i)\<rparr>)
           \<and> (KInt (p_id (posts s ! j)) \<noteq> k \<longrightarrow> posts (db ?o) ! j = posts s ! j)"
    by (simp add: ps)
  have rest: "db ?o = s\<lparr>posts := posts (db ?o)\<rparr>"
    by (simp add: updatePost_valid [OF assms])
  have tabs: "reactions (db ?o) = reactions s" "replies (db ?o) = replies s"
    "reports (db ?o) = reports s"
    by (simp_all add: updatePost_valid [OF assms])
  have nf: "response ?o = Inl NotFound \<longleftrightarrow> (\<forall>p \<in> set (posts s). KInt (p_id p) \<noteq> k)"
    by (simp add: response_updatePost [OF assms] filter_empty_conv)
  from len rows rest tabs nf show ?thesis by blast
qed

theorem updatePost_frame_witness:
  "trim (lit ''hi'') \<noteq> [] \<and> length (trim (lit ''hi'')) \<le> 280
   \<and> posts (db (updatePost None (KInt 2) (Some 2) \<lparr>body_text = JStr (lit ''hi''), body_mood = JStr (lit ''happy''),
         body_image = JNull\<rparr> demo_store)) ! 0 = post1
   \<and> posts (db (updatePost None (KInt 2) (Some 2) \<lparr>body_text = JStr (lit ''hi''), body_mood = JStr (lit ''happy''),
         body_image = JNull\<rparr> demo_store)) ! 1
       = post2\<lparr>p_text := lit ''hi'', p_mood := lit ''happy'', p_image := SqlNull\<rparr>
   \<and> reactions (db (updatePost None (KInt 2) (Some 2) \<lparr>body_text = JStr (lit ''hi''), body_mood = JStr (lit ''happy''),
         body_image = JNull\<rparr> demo_store)) = reactions demo_store
   \<and> response (updatePost None (KInt 2) (Some 2) \<lparr>body_text = JStr (lit ''hi''), body_mood = JStr (lit ''happy''),
         body_image = JNull\<rparr> demo_store) \<noteq> Inl NotFound
   \<and> response (updatePost None (KInt 9) (Some 9) \<lparr>body_text = JStr (lit ''hi''), body_mood = JStr (lit ''happy''),
         body_image = JNull\<rparr> demo_store) = Inl NotFound"
proof -
  have v: "trim (lit ''hi'') \<noteq> []" "length (trim (lit ''hi'')) \<le> 280"
    unfolding trim_hi by (simp_all add: lit_def)
  have mood: "safeMood (JStr (lit ''happy'')) = lit ''happy''"
    by (simp add: safeMood_def includes_str_def validMoods_def)
  have rows: "length (posts demo_store) = 2" "posts demo_store ! 0 = post1"
    "posts demo_store ! 1 = post2" "KInt (p_id post1) \<noteq> KInt 2" "KInt (p_id post2) = KInt 2"
    "\<not> (\<forall>p \<in> set (posts demo_store). KInt (p_id p) \<noteq> KInt 2)"
    "\<forall>p \<in> set (posts demo_store). KInt (p_id p) \<noteq> KInt 9"
    by (simp_all add: demo_defs)
  note two = updatePost_frame [OF v, of "KInt 2" "Some 2" "JStr (lit ''happy'')" JNull demo_store]
  note nine = updatePost_frame [OF v, of "KInt 9" "Some 9" "JStr (lit ''happy'')" JNull demo_store]
  from two have at:
    "\<forall>j < length (posts demo_store).
       (KInt (p_id (posts demo_store ! j)) = KInt 2 \<longrightarrow>
          posts (db (updatePost None (KInt 2) (Some 2) \<lparr>body_text = JStr (lit ''hi''),
             body_mood = JStr (lit ''happy''), body_image = JNull\<rparr> demo_store)) ! j
            = (posts demo_store ! j)\<lparr>p_text := trim (lit ''hi''),
                 p_mood := safeMood (JStr (lit ''happy'')), p_image := to_text_column (or_null JNull)\<rparr>)
     \<and> (KInt (p_id (posts demo_store ! j)) \<noteq> KInt 2 \<longrightarrow>
          posts (db (updatePost None (KInt 2) (Some 2) \<lparr>body_text = JStr (lit ''hi''),
             body_mood = JStr (lit ''happy''), body_image = JNull\<rparr> demo_store)) ! j
            = posts demo_store ! j)"
    by blast
  from at [rule_format, of 0] rows
  have r0: "posts (db (updatePost None (KInt 2) (Some 2) \<lparr>body_text = JStr (lit ''hi''),
      body_mood = JStr (lit ''happy''), body_image = JNull\<rparr> demo_store)) ! 0 = post1"
    by simp
  from at [rule_format, of 1] rows
  have r1: "posts (db (updatePost None (KInt 2) (Some 2) \<lparr>body_text = JStr (lit ''hi''),
      body_mood = JStr (lit ''happy''), body_image = JNull\<rparr> demo_store)) ! 1
      = post2\<lparr>p_text := lit ''hi'', p_mood := lit ''happy'', p_image := SqlNull\<rparr>"
    by (simp add: trim_hi mood or_null_def)
  from v r0 r1 two nine rows(6,7) show ?thesis by blast
qed


section \<open>The delete cascade\<close>

text \<open>
  Claim C3. deletePost issues the three child deletions and then the deletion of the
  post, always in that order and whatever the outcome. The child tables lose exactly the
  rows whose post id is the given one, also when the last statement fails or finds no
  post; where no child row matches they are unchanged. When the last statement does not
  fail, the posts table loses exactly the rows of that id, and the answer is NotFound
  exactly when there was none and success exactly when there was one.
\<close>

theorem deletePost_cascade:
  "reactions (db (deletePost f k s)) = filter (\<lambda>r. rx_post_id r \<noteq> k) (reactions s)
   \<and> replies (db (deletePost f k s)) = filter (\<lambda>r. rp_post_id r \<noteq> k) (replies s)
   \<and> reports (db (deletePost f k s)) = filter (\<lambda>r. rt_post_id r \<noteq> k) (reports s)
   \<and> issued (deletePost f k s) = [DeleteReactions k, DeleteReplies k, DeleteReports k, DeletePost k]
   \<and> posts (db (deletePost None k s)) = filter (\<lambda>p. KInt (p_id p) \<noteq> k) (posts s)
   \<and> (response (deletePost None k s) = Inl NotFound \<longleftrightarrow> (\<forall>p \<in> set (posts s). KInt (p_id p) \<noteq> k))
   \<and> (response (deletePost None k s) = Inr () \<longleftrightarrow> (\<exists>p \<in> set (posts s). KInt (p_id p) = k))"
  by (auto simp: deletePost_def delete_post_def delete_reactions_def delete_replies_def
      delete_reports_def Let_def filter_empty_conv split: option.splits)

theorem deletePost_cascade_witness:
  "posts (db (deletePost None (KInt 1) demo_store)) = [post2]
   \<and> reactions (db (deletePost None (KInt 1) demo_store)) = reactions demo_store
   \<and> replies (db (deletePost None (KInt 1) demo_store)) = []
   \<and> reports (db (deletePost None (KInt 1) demo_store)) = []
   \<and> response (deletePost None (KInt 1) demo_store) = Inr ()
   \<and> response (deletePost None (KInt 9) demo_store) = Inl NotFound
   \<and> issued (deletePost None (KInt 9) demo_store)
       = [DeleteReactions (KInt 9), DeleteReplies (KInt 9), DeleteReports (KInt 9), DeletePost (KInt 9)]"
  using deletePost_cascade [of None "KInt 1" demo_store] deletePost_cascade [of None "KInt 9" demo_store]
  by (simp add: demo_defs)


section \<open>Likes and reposts\<close>

lemma filter_key_unique:
  "distinct (map p_id ps) \<Longrightarrow> p \<in> set ps \<Longrightarrow> filter (\<lambda>q. KInt (p_id q) = KInt (p_id p)) ps = [p]"
proof (induction ps)
  case Nil
  then show ?case by simp
next
  case (Cons a ps)
  show ?case
  proof (cases "a = p")
    case True
    with Cons.prems have "p_id p \<notin> p_id ` set ps" by simp
    then have "\<forall>q \<in> set ps. p_id q \<noteq> p_id p" by (metis imageI)
    then have "filter (\<lambda>q. KInt (p_id q) = KInt (p_id p)) ps = []"
      by (simp add: filter_empty_conv)
    with True show ?thesis by simp
  next
    case False
    with Cons.prems have "p \<in> set ps" and "p_id a \<noteq> p_id p" by force+
    with Cons show ?thesis by simp
  qed
qed

lemma filter_map_on_key:
  "(\<And>q. p_id (g q) = p_id q) \<Longrightarrow>
   filter (\<lambda>q. KInt (p_id q) = k) (map (\<lambda>q. if KInt (p_id q) = k then g q else q) ps)
     = map g (filter (\<lambda>q. KInt (p_id q) = k) ps)"
  by (induction ps) simp_all

lemma incrementLikes_existing:
  assumes "distinct (map p_id (posts s))" and "p \<in> set (posts s)"
  shows "response (incrementLikes None None (KInt (p_id p)) s) = Inr (p_likes p + 1)"
    and "map p_id (posts (db (incrementLikes None None (KInt (p_id p)) s))) = map p_id (posts s)"
    and "filter (\<lambda>q. KInt (p_id q) = KInt (p_id p)) (posts (db (incrementLikes None None (KInt (p_id p)) s)))
          = [p\<lparr>p_likes := p_likes p + 1\<rparr>]"
proof -
  let ?k = "KInt (p_id p)"
  let ?g = "\<lambda>q. q\<lparr>p_likes := p_likes q + 1\<rparr>"
  let ?ps' = "map (\<lambda>q. if KInt (p_id q) = ?k then ?g q else q) (posts s)"
  have one: "filter (\<lambda>q. KInt (p_id q) = ?k) (posts s) = [p]"
    by (rule filter_key_unique [OF assms])
  have upd: "update_likes None ?k s = Inr (1, s\<lparr>posts := ?ps'\<rparr>)"
    by (simp add: update_likes_def one [simplified])
  have sel: "filter (\<lambda>q. KInt (p_id q) = ?k) ?ps' = [?g p]"
    using filter_map_on_key [of ?g ?k "posts s"] by (simp add: one [simplified])
  have out: "incrementLikes None None ?k s =
      \<lparr>response = Inr (p_likes p + 1), db = s\<lparr>posts := ?ps'\<rparr>,
       issued = [UpdateLikes ?k, SelectLikes ?k]\<rparr>"
    by (simp add: incrementLikes_def upd select_post_def sel [simplified])
  show "response (incrementLikes None None ?k s) = Inr (p_likes p + 1)"
    by (simp add: out)
  show "map p_id (posts (db (incrementLikes None None ?k s))) = map p_id (posts s)"
    using map_id_on_key [of ?g ?k "posts s"] by (simp add: out)
  show "filter (\<lambda>q. KInt (p_id q) = ?k) (posts (db (incrementLikes None None ?k s))) = [?g p]"
    using sel by (simp add: out)
qed

lemma incrementLikes_NotFound:
  "response (incrementLikes None f2 k s) = Inl NotFound \<longleftrightarrow> (\<forall>p \<in> set (posts s). KInt (p_id p) \<noteq> k)"
proof (cases "filter (\<lambda>p. KInt (p_id p) = k) (posts s) = []")
  case True
  then show ?thesis
    by (simp add: incrementLikes_def update_likes_def filter_empty_conv)
next
  case False
  then have "response (incrementLikes None f2 k s) \<noteq> Inl NotFound"
    by (cases f2) (simp_all add: incrementLikes_def update_likes_def select_post_def
        split: list.splits)
  with False show ?thesis by (simp add: filter_empty_conv)
qed

lemma incrementReposts_NotFound:
  "response (incrementReposts None f2 k s) = Inl NotFound \<longleftrightarrow> (\<forall>p \<in> set (posts s). KInt (p_id p) \<noteq> k)"
proof (cases "filter (\<lambda>p. KInt (p_id p) = k) (posts s) = []")
  case True
  then show ?thesis
    by (simp add: incrementReposts_def update_reposts_def filter_empty_conv)
next
  case False
  then have "response (incrementReposts None f2 k s) \<noteq> Inl NotFound"
    by (cases f2) (simp_all add: incrementReposts_def update_reposts_def select_post_def
        split: list.splits)
  with False show ?thesis by (simp add: filter_empty_conv)
qed

text \<open>
  Claim C7. In a store whose post ids are unique, as the primary key keeps them, liking
  an existing post answers with its likes plus one; liking it again answers with its
  likes plus two, and the post of that id is then the old post with exactly two more
  likes. When the update statement does not fail, incrementLikes and incrementReposts
  answer NotFound exactly when no post has the id.
\<close>

theorem like_twice:
  "(distinct (map p_id (posts s)) \<and> p \<in> set (posts s) \<longrightarrow>
      response (incrementLikes None None (KInt (p_id p)) s) = Inr (p_likes p + 1)
      \<and> response (incrementLikes None None (KInt (p_id p))
                    (db (incrementLikes None None (KInt (p_id p)) s))) = Inr (p_likes p + 2)
      \<and> filter (\<lambda>q. KInt (p_id q) = KInt (p_id p))
           (posts (db (incrementLikes None None (KInt (p_id p))
                    (db (incrementLikes None None (KInt (p_id p)) s)))))
          = [p\<lparr>p_likes := p_likes p + 2\<rparr>])
   \<and> (response (incrementLikes None f2 k s) = Inl NotFound
        \<longleftrightarrow> (\<forall>q \<in> set (posts s). KInt (p_id q) \<noteq> k))
   \<and> (response (incrementReposts None f2 k s) = Inl NotFound
        \<longleftrightarrow> (\<forall>q \<in> set (posts s). KInt (p_id q) \<noteq> k))"
proof -
  {
    assume d: "distinct (map p_id (posts s))" and p: "p \<in> set (posts s)"
    let ?k = "KInt (p_id p)"
    let ?s1 = "db (incrementLikes None None ?k s)"
    let ?p1 = "p\<lparr>p_likes := p_likes p + 1\<rparr>"
    note first = incrementLikes_existing [OF d p]
    have d1: "distinct (map p_id (posts ?s1))"
      using d first(2) by simp
    have "?p1 \<in> set (filter (\<lambda>q. KInt (p_id q) = ?k) (posts ?s1))"
      unfolding first(3) by simp
    then have p1: "?p1 \<in> set (posts ?s1)"
      by (simp only: set_filter) blast
    note second = incrementLikes_existing [OF d1 p1]
    have "response (incrementLikes None None ?k ?s1) = Inr (p_likes p + 2)"
      using second(1) by simp
    moreover have "filter (\<lambda>q. KInt (p_id q) = ?k) (posts (db (incrementLikes None None ?k ?s1)))
        = [p\<lparr>p_likes := p_likes p + 2\<rparr>]"
      using second(3) by simp
    ultimately have "response (incrementLikes None None ?k s) = Inr (p_likes p + 1)
      \<and> response (incrementLikes None None ?k ?s1) = Inr (p_likes p + 2)
      \<and> filter (\<lambda>q. KInt (p_id q) = ?k) (posts (db (incrementLikes None None ?k ?s1)))
          = [p\<lparr>p_likes := p_likes p + 2\<rparr>]"
      using first(1) by simp
  }
  then show ?thesis
    using incrementLikes_NotFound [of f2 k s] incrementReposts_NotFound [of f2 k s] by blast
qed

theorem like_twice_witness:
  "distinct (map p_id (posts demo_store)) \<and> post1 \<in> set (posts demo_store)
   \<and> p_likes post1 = 5
   \<and> response (incrementLikes None None (KInt 1) demo_store) = Inr 6
   \<and> response (incrementLikes None None (KInt 1) (db (incrementLikes None None (KInt 1) demo_store)))
       = Inr 7
   \<and> filter (\<lambda>q. KInt (p_id q) = KInt 1)
        (posts (db (incrementLikes None None (KInt 1) (db (incrementLikes None None (KInt 1) demo_store)))))
       = [post1\<lparr>p_likes := 7\<rparr>]
   \<and> response (incrementLikes None None (KInt 9) demo_store) = Inl NotFound
   \<and> response (incrementReposts None None (KInt 9) demo_store) = Inl NotFound"
proof -
  have h: "distinct (map p_id (posts demo_store))" "post1 \<in> set (posts demo_store)"
    "p_likes post1 = 5" "p_id post1 = 1"
    "\<forall>q \<in> set (posts demo_store). KInt (p_id q) \<noteq> KInt 9"
    by (simp_all add: demo_defs)
  show ?thesis
    using like_twice [of demo_store post1 None "KInt 9"] h by simp
qed


section \<open>Child rows of a post that does not exist\<close>

text \<open>
  Claim C5. Whatever the post id, and whether or not a post has it, addReaction with a
  valid type, addReply with a text that is not blank and addReport with a valid reason
  succeed and append a row carrying that post id to their table; the posts table is
  never consulted. No input and no store failure makes any of the three answer
  NotFound. The witness runs them on the empty store, where no post exists.
\<close>

theorem child_rows_need_no_post:
  "(includes_str validTypes type \<longrightarrow>
      (\<exists>r. response (addReaction now None None k type s) = Inr r)
      \<and> reactions (db (addReaction now None None k type s))
          = reactions s @ [\<lparr>rx_id = seq_reactions s + 1, rx_post_id = k, rx_type = the_str type,
                             rx_timestamp = now\<rparr>])
   \<and> (trim t \<noteq> [] \<longrightarrow>
      response (addReply now None k n (JStr t) s)
          = Inr \<lparr>rc_id = seq_replies s + 1, rc_post_id = n, rc_text = trim t\<rparr>
      \<and> replies (db (addReply now None k n (JStr t) s))
          = replies s @ [\<lparr>rp_id = seq_replies s + 1, rp_post_id = k, rp_text = trim t,
                           rp_timestamp = now\<rparr>])
   \<and> (includes_str validReasons reason \<longrightarrow>
      response (addReport now None k n reason s)
          = Inr \<lparr>rr_id = seq_reports s + 1, rr_post_id = n, rr_reason = the_str reason\<rparr>
      \<and> reports (db (addReport now None k n reason s))
          = reports s @ [\<lparr>rt_id = seq_reports s + 1, rt_post_id = k, rt_reason = the_str reason,
                           rt_timestamp = now\<rparr>])
   \<and> response (addReaction now f1 f2 k type s) \<noteq> Inl NotFound
   \<and> response (addReply now f k n text s) \<noteq> Inl NotFound
   \<and> response (addReport now f k n reason s) \<noteq> Inl NotFound"
proof -
  have react: "includes_str validTypes type \<Longrightarrow>
      (\<exists>r. response (addReaction now None None k type s) = Inr r)
      \<and> reactions (db (addReaction now None None k type s))
          = reactions s @ [\<lparr>rx_id = seq_reactions s + 1, rx_post_id = k, rx_type = the_str type,
                             rx_timestamp = now\<rparr>]"
    by (simp add: addReaction_def insert_reaction_def select_reaction_counts_def Let_def)
  have reply: "trim t \<noteq> [] \<Longrightarrow>
      response (addReply now None k n (JStr t) s)
          = Inr \<lparr>rc_id = seq_replies s + 1, rc_post_id = n, rc_text = trim t\<rparr>
      \<and> replies (db (addReply now None k n (JStr t) s))
          = replies s @ [\<lparr>rp_id = seq_replies s + 1, rp_post_id = k, rp_text = trim t,
                           rp_timestamp = now\<rparr>]"
    by (simp add: addReply_def blank_JStr trimmed_JStr insert_reply_def Let_def)
  have report: "includes_str validReasons reason \<Longrightarrow>
      response (addReport now None k n reason s)
          = Inr \<lparr>rr_id = seq_reports s + 1, rr_post_id = n, rr_reason = the_str reason\<rparr>
      \<and> reports (db (addReport now None k n reason s))
          = reports s @ [\<lparr>rt_id = seq_reports s + 1, rt_post_id = k, rt_reason = the_str reason,
                           rt_timestamp = now\<rparr>]"
    by (simp add: addReport_def insert_report_def Let_def)
  have n1: "response (addReaction now f1 f2 k type s) \<noteq> Inl NotFound"
    by (cases f1; cases f2)
      (simp_all add: addReaction_def insert_reaction_def select_reaction_counts_def Let_def)
  have n2: "response (addReply now f k n text s) \<noteq> Inl NotFound"
  proof (cases "blank text")
    case (Inl e)
    then have "e = TypeError"
      by (auto simp: blank_def split: if_splits jsval.splits)
    with Inl show ?thesis by (simp add: addReply_def)
  next
    case (Inr b)
    then show ?thesis
      by (cases b; cases f) (simp_all add: addReply_def insert_reply_def Let_def)
  qed
  have n3: "response (addReport now f k n reason s) \<noteq> Inl NotFound"
    by (cases f) (simp_all add: addReport_def insert_report_def Let_def)
  from react reply report n1 n2 n3 show ?thesis by blast
qed

theorem child_rows_need_no_post_witness:
  "posts empty_store = []
   \<and> includes_str validTypes (JStr (lit ''love'')) \<and> trim (lit ''hi'') \<noteq> []
   \<and> includes_str validReasons (JStr (lit ''spam''))
   \<and> (\<exists>r. response (addReaction 30 None None (KInt 7) (JStr (lit ''love'')) empty_store) = Inr r)
   \<and> reactions (db (addReaction 30 None None (KInt 7) (JStr (lit ''love'')) empty_store))
       = [\<lparr>rx_id = 1, rx_post_id = KInt 7, rx_type = lit ''love'', rx_timestamp = 30\<rparr>]
   \<and> response (addReply 30 None (KInt 7) (Some 7) (JStr (lit ''hi'')) empty_store)
       = Inr \<lparr>rc_id = 1, rc_post_id = Some 7, rc_text = lit ''hi''\<rparr>
   \<and> replies (db (addReply 30 None (KInt 7) (Some 7) (JStr (lit ''hi'')) empty_store))
       = [\<lparr>rp_id = 1, rp_post_id = KInt 7, rp_text = lit ''hi'', rp_timestamp = 30\<rparr>]
   \<and> response (addReport 30 None (KInt 7) (Some 7) (JStr (lit ''spam'')) empty_store)
       = Inr \<lparr>rr_id = 1, rr_post_id = Some 7, rr_reason = lit ''spam''\<rparr>
   \<and> reports (db (addReport 30 None (KInt 7) (Some 7) (JStr (lit ''spam'')) empty_store))
       = [\<lparr>rt_id = 1, rt_post_id = KInt 7, rt_reason = lit ''spam'', rt_timestamp = 30\<rparr>]"
proof -
  have h: "posts empty_store = []" "includes_str validTypes (JStr (lit ''love''))"
    "trim (lit ''hi'') \<noteq> []" "includes_str validReasons (JStr (lit ''spam''))"
    "reactions empty_store = []" "replies empty_store = []" "reports empty_store = []"
    "seq_reactions empty_store = 0" "seq_replies empty_store = 0" "seq_reports empty_store = 0"
    unfolding trim_hi
    by (simp_all add: empty_store_def includes_str_def validTypes_def validReasons_def lit_def)
  show ?thesis
    using child_rows_need_no_post [of "JStr (lit ''love'')" 30 "KInt 7" empty_store "lit ''hi''"
        "Some 7" "JStr (lit ''spam'')" None None None JNull] h
    by (simp add: trim_hi the_str_def)
qed


section \<open>Grouping and counting\<close>

lemma map_of_tabulate:
  "map_of (map (\<lambda>k. (k, f k)) xs) k = (if k \<in> set xs then Some (f k) else None)"
  by (induction xs) simp_all

lemma COALESCE_group_count: "COALESCE (map_of (group_count ks) k) 0 = count_list ks k"
  by (simp add: group_count_def map_of_tabulate COALESCE_def count_list_0_iff)

lemma count_list_map_filter: "count_list (map f xs) g = length (filter (\<lambda>r. f r = g) xs)"
  by (induction xs) simp_all

lemma sum_group_sizes: "sum_list (map (count_list zs) (remdups zs)) = length zs"
proof -
  have "sum_list (map (count_list zs) (remdups zs)) = sum (count_list zs) (set (remdups zs))"
    by (rule sum_list_distinct_conv_sum_set) simp
  also have "\<dots> = length zs"
    by (simp add: sum_count_set)
  finally show ?thesis .
qed

text \<open>The groups that satisfy a condition on the key hold exactly the rows that do.\<close>

lemma sum_selected_group_sizes:
  "sum_list (map (\<lambda>g. length (filter (\<lambda>r. f r = g) xs)) (filter P (remdups (map f xs))))
     = length (filter (\<lambda>r. P (f r)) xs)"
proof -
  let ?ys = "filter (\<lambda>r. P (f r)) xs"
  have groups: "filter P (remdups (map f xs)) = remdups (map f ?ys)"
    by (simp add: remdups_filter [symmetric] filter_map comp_def)
  have same: "length (filter (\<lambda>r. f r = g) xs) = count_list (map f ?ys) g"
    if "g \<in> set (remdups (map f ?ys))" for g
  proof -
    from that have "P g" by auto
    then have "filter (\<lambda>r. f r = g) ?ys = filter (\<lambda>r. f r = g) xs"
      by (auto intro: filter_cong)
    then show ?thesis by (simp add: count_list_map_filter)
  qed
  have "sum_list (map (\<lambda>g. length (filter (\<lambda>r. f r = g) xs)) (remdups (map f ?ys)))
      = sum_list (map (count_list (map f ?ys)) (remdups (map f ?ys)))"
    by (rule arg_cong [where f = sum_list], rule map_cong [OF refl]) (rule same)
  then show ?thesis
    by (simp only: groups sum_group_sizes length_map)
qed


section \<open>Building the reactions map\<close>

lemma sum_update_fresh:
  "t \<notin> fst ` set al \<Longrightarrow> sum_list (map snd (AList.update t c al)) = sum_list (map snd al) + c"
  by (induction al) (auto simp: add.assoc)

lemma lookup_add_row:
  "COALESCE (map_of (add_row m (k, t, c)) k') [] =
     (if k' = k then AList.update t c (COALESCE (map_of m k) []) else COALESCE (map_of m k') [])"
  by (simp add: add_row_def Let_def update_conv' COALESCE_def)

lemma count_sum_add_row:
  "t \<notin> types_at m k \<Longrightarrow>
   count_sum (add_row m (k, t, c)) k' = count_sum m k' + (if k' = k then c else 0)"
  by (simp add: count_sum_def types_at_def lookup_add_row sum_update_fresh)

lemma types_at_add_row:
  "types_at (add_row m (k, t, c)) k' = types_at m k' \<union> (if k' = k then {t} else {})"
  by (simp add: types_at_def lookup_add_row dom_update)

text \<open>
  Rows with pairwise different pairs of post id and type never overwrite one another,
  so under each post id the map ends up holding the counts of all its rows.
\<close>

lemma count_sum_foldl_add_row:
  "distinct (map (\<lambda>r. (fst r, fst (snd r))) rows) \<Longrightarrow>
   \<forall>r \<in> set rows. fst (snd r) \<notin> types_at m (fst r) \<Longrightarrow>
   count_sum (foldl add_row m rows) k'
     = count_sum m k' + sum_list (map (\<lambda>r. snd (snd r)) (filter (\<lambda>r. fst r = k') rows))"
proof (induction rows arbitrary: m)
  case Nil
  then show ?case by simp
next
  case (Cons r rows)
  obtain k t c where r: "r = (k, t, c)" by (cases r)
  from Cons.prems r have fresh: "t \<notin> types_at m k" by simp
  have d: "distinct (map (\<lambda>r. (fst r, fst (snd r))) rows)"
    using Cons.prems(1) by simp
  have later: "\<forall>x \<in> set rows. fst (snd x) \<notin> types_at (add_row m r) (fst x)"
  proof
    fix x assume x: "x \<in> set rows"
    with Cons.prems(2) have "fst (snd x) \<notin> types_at m (fst x)" by simp
    moreover have "(fst x, fst (snd x)) \<noteq> (k, t)"
      using Cons.prems(1) x r by force
    ultimately show "fst (snd x) \<notin> types_at (add_row m r) (fst x)"
      by (auto simp: r types_at_add_row)
  qed
  have "count_sum (foldl add_row m (r # rows)) k' = count_sum (foldl add_row (add_row m r) rows) k'"
    by simp
  also have "\<dots> = count_sum (add_row m r) k'
      + sum_list (map (\<lambda>r. snd (snd r)) (filter (\<lambda>r. fst r = k') rows))"
    by (rule Cons.IH [OF d later])
  also have "count_sum (add_row m r) k' = count_sum m k' + (if k' = k then c else 0)"
    unfolding r by (rule count_sum_add_row [OF fresh])
  finally show ?case
    by (auto simp: r)
qed

lemma count_sum_breakdown:
  assumes "k' \<in> KInt ` set ids"
  shows "count_sum (foldl add_row [] (breakdown_rows ids s)) k'
      = length (filter (\<lambda>r. rx_post_id r = k') (reactions s))"
proof -
  let ?sel = "filter (\<lambda>r. rx_post_id r \<in> set (map KInt ids)) (reactions s)"
  let ?f = "\<lambda>r. (rx_post_id r, rx_type r)"
  let ?groups = "remdups (map ?f ?sel)"
  let ?cnt = "\<lambda>g. length (filter (\<lambda>r. ?f r = g) ?sel)"
  have rows: "breakdown_rows ids s = map (\<lambda>g. (fst g, snd g, ?cnt g)) ?groups"
    by (simp add: breakdown_rows_def Let_def case_prod_beta prod_eq_iff)
  have keys: "map (\<lambda>r. (fst r, fst (snd r))) (breakdown_rows ids s) = ?groups"
    unfolding rows by (simp add: comp_def)
  have d: "distinct (map (\<lambda>r. (fst r, fst (snd r))) (breakdown_rows ids s))"
    unfolding keys by simp
  have fresh: "\<forall>r \<in> set (breakdown_rows ids s). fst (snd r) \<notin> types_at [] (fst r)"
    by (simp add: types_at_def COALESCE_def)
  have "count_sum (foldl add_row [] (breakdown_rows ids s)) k'
      = count_sum [] k'
        + sum_list (map (\<lambda>r. snd (snd r)) (filter (\<lambda>r. fst r = k') (breakdown_rows ids s)))"
    by (rule count_sum_foldl_add_row [OF d fresh])
  also have "\<dots> = sum_list (map ?cnt (filter (\<lambda>g. fst g = k') ?groups))"
    unfolding rows by (simp add: count_sum_def COALESCE_def filter_map comp_def)
  also have "\<dots> = length (filter (\<lambda>r. fst (?f r) = k') ?sel)"
    by (rule sum_selected_group_sizes)
  also have "\<dots> = length (filter (\<lambda>r. rx_post_id r = k') (reactions s))"
    using assms by (auto intro!: arg_cong [where f = length] filter_cong)
  finally show ?thesis .
qed


section \<open>The list query\<close>

lemma with_reactions_fields:
  "p_id (with_reactions m row) = p_id row"
  "p_likes (with_reactions m row) = p_likes row"
  "p_reposts (with_reactions m row) = p_reposts row"
  "p_timestamp (with_reactions m row) = p_timestamp row"
  "p_reaction_count (with_reactions m row) = p_reaction_count row"
  "p_reactions (with_reactions m row) = COALESCE (map_of m (KInt (p_id row))) []"
  by (simp_all add: with_reactions_def post_row.defs listed.defs)

lemma listPosts_ok:
  "response (listPosts sortMode None f2 s) =
     Inr (map (with_reactions (fst (getReactionsForPosts f2 s
                  (map p_id (list_rows (sortMode = JStr (lit ''top'')) s)))))
              (list_rows (sortMode = JStr (lit ''top'')) s))"
  by (simp add: listPosts_def select_posts_def Let_def split: prod.splits)

lemma set_order_by_desc: "set (order_by_desc e xs) = set xs"
  by (simp add: order_by_desc_def)

lemma mset_order_by_desc: "mset (order_by_desc e xs) = mset xs"
  by (simp add: order_by_desc_def)

lemma sorted_order_by_desc: "sorted_wrt (\<lambda>a b. e b \<le> e a) (order_by_desc e xs)"
proof -
  have "sorted (map e (sort_key e (rev xs)))" by simp
  then have "sorted_wrt (\<lambda>a b. e a \<le> e b) (sort_key e (rev xs))"
    by (simp only: sorted_map)
  then show ?thesis
    by (simp add: order_by_desc_def sorted_wrt_rev)
qed

lemma reaction_count_joined:
  "r \<in> set (joined s) \<Longrightarrow>
   p_reaction_count r = length (filter (\<lambda>x. rx_post_id x = KInt (p_id r)) (reactions s))"
  by (auto simp: joined_def Let_def COALESCE_group_count count_list_map_filter
      post.defs post_row.defs)

lemma reaction_count_list_rows:
  "r \<in> set (list_rows byTop s) \<Longrightarrow>
   p_reaction_count r = length (filter (\<lambda>x. rx_post_id x = KInt (p_id r)) (reactions s))"
  by (simp add: list_rows_def set_order_by_desc reaction_count_joined split: if_splits)

lemma truncate_joined: "map post.truncate (joined s) = posts s"
  by (simp add: joined_def Let_def comp_def post.defs post_row.defs map_idI)

lemma getReactionsForPosts_ok:
  "ids \<noteq> [] \<Longrightarrow> fst (getReactionsForPosts None s ids) = foldl add_row [] (breakdown_rows ids s)"
  by (simp add: getReactionsForPosts_def select_breakdown_def)

lemma getReactionsForPosts_fault: "fst (getReactionsForPosts (Some e) s ids) = []"
  by (simp add: getReactionsForPosts_def select_breakdown_def)


section \<open>The list response on the example store\<close>

lemmas list_defs = listPosts_def select_posts_def list_rows_def joined_def group_count_def
  COALESCE_def order_by_desc_def top_score_def getReactionsForPosts_def select_breakdown_def
  breakdown_rows_def add_row_def with_reactions_def demo_defs listed1_def listed2_def
  post.defs post_row.defs listed.defs

lemma list_demo_recent:
  "response (listPosts JUndefined None None demo_store) = Inr [listed2, listed1]"
  by (simp add: list_defs lit_def Let_def)

lemma list_demo_top:
  "response (listPosts (JStr (lit ''top'')) None None demo_store) = Inr [listed1, listed2]"
  by (simp add: list_defs lit_def Let_def)

lemma list_demo_fault:
  "response (listPosts JUndefined None (Some e) demo_store)
     = Inr [listed2\<lparr>p_reactions := []\<rparr>, listed1]"
  by (simp add: list_defs lit_def Let_def)

lemma issued_demo_fault:
  "issued (listPosts JUndefined None (Some e) demo_store) = [SelectPosts False, SelectBreakdown [2, 1]]"
  by (simp add: list_defs lit_def Let_def)


section \<open>Listing an empty posts table\<close>

text \<open>
  Claim C8. Given no ids, getReactionsForPosts yields the empty map and issues no
  statement, whatever the store holds and whether or not it would have failed. When the
  posts table is empty and the list query does not fail, listPosts answers with the empty
  list and the list query is the only statement it issues, so the breakdown query is not
  issued. The witness lists the empty store with a breakdown query that would fail.
\<close>

theorem empty_list_skips_breakdown:
  "getReactionsForPosts f s [] = ([], [])
   \<and> (posts s = [] \<longrightarrow>
        response (listPosts sortMode None f2 s) = Inr []
        \<and> issued (listPosts sortMode None f2 s) = [SelectPosts (sortMode = JStr (lit ''top''))])"
proof -
  have none: "getReactionsForPosts f s [] = ([], [])"
    by (simp add: getReactionsForPosts_def)
  {
    assume e: "posts s = []"
    have rows: "list_rows byTop s = []" for byTop
      by (simp add: list_rows_def joined_def order_by_desc_def e Let_def)
    have "response (listPosts sortMode None f2 s) = Inr []
        \<and> issued (listPosts sortMode None f2 s) = [SelectPosts (sortMode = JStr (lit ''top''))]"
      by (simp add: listPosts_def select_posts_def rows getReactionsForPosts_def Let_def)
  }
  with none show ?thesis by blast
qed

theorem empty_list_skips_breakdown_witness:
  "posts empty_store = []
   \<and> getReactionsForPosts (Some ''SQLITE_ERROR'') demo_store [] = ([], [])
   \<and> response (listPosts JUndefined None (Some ''SQLITE_ERROR'') empty_store) = Inr []
   \<and> issued (listPosts JUndefined None (Some ''SQLITE_ERROR'') empty_store) = [SelectPosts False]"
  using empty_list_skips_breakdown [of "Some ''SQLITE_ERROR''" demo_store]
    empty_list_skips_breakdown [of None empty_store JUndefined "Some ''SQLITE_ERROR''"]
  by (simp add: empty_store_def)


section \<open>The order of the list\<close>

text \<open>
  Claim C2. When the list query does not fail, listPosts answers with every post of the
  store exactly once. With sortMode the string top, each post of the answer has a sum of
  reaction count, reposts and likes at least that of every post after it; with any other
  sortMode, absent included, each post has a timestamp at least that of every post after
  it. Posts with equal keys may come in any order. The witness lists the example store
  both ways: the first post has the higher score, the second is the more recent.
\<close>

theorem list_order:
  "\<exists>rows. response (listPosts sortMode None f2 s) = Inr rows
     \<and> mset (map post.truncate rows) = mset (posts s)
     \<and> (sortMode = JStr (lit ''top'') \<longrightarrow>
          sorted_wrt (\<lambda>a b. int (p_reaction_count b) + p_reposts b + p_likes b
                           \<le> int (p_reaction_count a) + p_reposts a + p_likes a) rows)
     \<and> (sortMode \<noteq> JStr (lit ''top'') \<longrightarrow>
          sorted_wrt (\<lambda>a b. p_timestamp b \<le> p_timestamp a) rows)"
proof -
  let ?b = "sortMode = JStr (lit ''top'')"
  let ?m = "fst (getReactionsForPosts f2 s (map p_id (list_rows ?b s)))"
  let ?rows = "map (with_reactions ?m) (list_rows ?b s)"
  have resp: "response (listPosts sortMode None f2 s) = Inr ?rows"
    by (rule listPosts_ok)
  have trunc: "post.truncate (with_reactions ?m row) = post.truncate row" for row
    by (simp add: with_reactions_def post.defs post_row.defs)
  have "mset (map post.truncate ?rows) = mset (map post.truncate (list_rows ?b s))"
    by (simp add: comp_def trunc)
  also have "\<dots> = image_mset post.truncate (mset (joined s))"
    by (simp add: list_rows_def mset_order_by_desc)
  also have "\<dots> = mset (posts s)"
    using truncate_joined [of s] by (metis mset_map)
  finally have perm: "mset (map post.truncate ?rows) = mset (posts s)" .
  have top: "sorted_wrt (\<lambda>a b. int (p_reaction_count b) + p_reposts b + p_likes b
                           \<le> int (p_reaction_count a) + p_reposts a + p_likes a) ?rows"
    if "?b"
    using that sorted_order_by_desc [of top_score "joined s"]
    by (simp add: sorted_wrt_map with_reactions_fields list_rows_def top_score_def)
  have recent: "sorted_wrt (\<lambda>a b. p_timestamp b \<le> p_timestamp a) ?rows" if "\<not> ?b"
    using that sorted_order_by_desc [of p_timestamp "joined s"]
    by (simp add: sorted_wrt_map with_reactions_fields list_rows_def)
  from resp perm top recent show ?thesis by blast
qed

theorem list_order_witness:
  "response (listPosts (JStr (lit ''top'')) None None demo_store) = Inr [listed1, listed2]
   \<and> sorted_wrt (\<lambda>a b. int (p_reaction_count b) + p_reposts b + p_likes b
                      \<le> int (p_reaction_count a) + p_reposts a + p_likes a) [listed1, listed2]
   \<and> response (listPosts JUndefined None None demo_store) = Inr [listed2, listed1]
   \<and> sorted_wrt (\<lambda>a b. p_timestamp b \<le> p_timestamp a) [listed2, listed1]
   \<and> mset (map post.truncate [listed2, listed1]) = mset (posts demo_store)"
proof -
  have mode: "JUndefined \<noteq> JStr (lit ''top'')" by simp
  show ?thesis
    using list_order [of "JStr (lit ''top'')" None demo_store]
      list_order [of JUndefined None demo_store] mode
    unfolding list_demo_top list_demo_recent by auto
qed


section \<open>The breakdown and the reaction count\<close>

text \<open>
  Claim C1, as amended. In the answer of a list call whose breakdown query did not
  fail, the per-type counts of every post's breakdown add up to the reaction count of
  that post. Both queries of the call read the same store. The witness is the second
  post of the example store: one fire and two love against a reaction count of three.
\<close>

theorem breakdown_sums_to_reaction_count:
  assumes "response (listPosts sortMode f1 None s) = Inr rows" and "r \<in> set rows"
  shows "sum_list (map snd (p_reactions r)) = p_reaction_count r"
proof -
  let ?b = "sortMode = JStr (lit ''top'')"
  let ?rows = "list_rows ?b s"
  let ?ids = "map p_id ?rows"
  let ?m = "fst (getReactionsForPosts None s ?ids)"
  have f1: "f1 = None"
    using assms(1) by (cases f1) (simp_all add: listPosts_def select_posts_def)
  have "rows = map (with_reactions ?m) ?rows"
    using assms(1) unfolding f1 listPosts_ok by simp
  with assms(2) obtain row where row: "row \<in> set ?rows" and r: "r = with_reactions ?m row"
    by auto
  from row have ne: "?ids \<noteq> []" by auto
  from row have key: "KInt (p_id row) \<in> KInt ` set ?ids" by simp
  have "sum_list (map snd (p_reactions r)) = count_sum ?m (KInt (p_id row))"
    by (simp add: r with_reactions_fields count_sum_def)
  also have "\<dots> = length (filter (\<lambda>x. rx_post_id x = KInt (p_id row)) (reactions s))"
    unfolding getReactionsForPosts_ok [OF ne] by (rule count_sum_breakdown [OF key])
  also have "\<dots> = p_reaction_count row"
    by (rule reaction_count_list_rows [OF row, symmetric])
  finally show ?thesis
    by (simp add: r with_reactions_fields)
qed

theorem breakdown_sums_to_reaction_count_witness:
  "response (listPosts JUndefined None None demo_store) = Inr [listed2, listed1]
   \<and> listed2 \<in> set [listed2, listed1]
   \<and> p_reactions listed2 = [(lit ''fire'', 1), (lit ''love'', 2)]
   \<and> p_reaction_count listed2 = 3
   \<and> sum_list (map snd (p_reactions listed2)) = p_reaction_count listed2"
proof -
  have inlist: "listed2 \<in> set [listed2, listed1]" by simp
  have fields: "p_reactions listed2 = [(lit ''fire'', 1), (lit ''love'', 2)]"
    "p_reaction_count listed2 = 3"
    by (simp_all add: listed2_def)
  from breakdown_sums_to_reaction_count [OF list_demo_recent inlist] list_demo_recent inlist fields
  show ?thesis by blast
qed

text \<open>
  Claim C1, as stated, fails when the breakdown query fails: the helper hands over the
  empty map, so the second post of the example store is listed with a reaction count of
  three and a breakdown that adds up to zero.
\<close>

theorem breakdown_sum_counterexample:
  "response (listPosts JUndefined None (Some ''SQLITE_IOERR: disk I/O error'') demo_store)
     = Inr [listed2\<lparr>p_reactions := []\<rparr>, listed1]
   \<and> breakdown_total (listed2\<lparr>p_reactions := []\<rparr>) = 0
   \<and> p_reaction_count (listed2\<lparr>p_reactions := []\<rparr>) = 3"
  by (simp add: list_demo_fault breakdown_total_def listed2_def)


section \<open>A failing breakdown query\<close>

text \<open>
  Claim C10. When the list query succeeds and the breakdown query fails, listPosts
  still answers with success: one entry for each post of the store, each with an empty
  reactions map. The failure of the breakdown query never becomes a store error. The
  witness is the example store, where the breakdown query is issued and fails.
\<close>

theorem breakdown_failure_swallowed:
  "\<exists>rows. response (listPosts sortMode None (Some e) s) = Inr rows
     \<and> length rows = length (posts s)
     \<and> (\<forall>r \<in> set rows. p_reactions r = [])"
proof -
  let ?b = "sortMode = JStr (lit ''top'')"
  let ?rows = "map (with_reactions []) (list_rows ?b s)"
  have resp: "response (listPosts sortMode None (Some e) s) = Inr ?rows"
    by (simp add: listPosts_ok getReactionsForPosts_fault)
  have len: "length ?rows = length (posts s)"
    by (simp add: list_rows_def order_by_desc_def joined_def Let_def)
  have empty: "\<forall>r \<in> set ?rows. p_reactions r = []"
    by (auto simp: with_reactions_fields COALESCE_def)
  from resp len empty show ?thesis by blast
qed

theorem breakdown_failure_swallowed_witness:
  "issued (listPosts JUndefined None (Some ''SQLITE_BUSY'') demo_store)
     = [SelectPosts False, SelectBreakdown [2, 1]]
   \<and> (\<exists>rows. response (listPosts JUndefined None (Some ''SQLITE_BUSY'') demo_store) = Inr rows
         \<and> length rows = 2
         \<and> (\<forall>r \<in> set rows. p_reactions r = []))"
proof -
  have len: "length (posts demo_store) = 2"
    by (simp add: demo_defs)
  from breakdown_failure_swallowed [of JUndefined "''SQLITE_BUSY''" demo_store]
  have "\<exists>rows. response (listPosts JUndefined None (Some ''SQLITE_BUSY'') demo_store) = Inr rows
         \<and> length rows = 2
         \<and> (\<forall>r \<in> set rows. p_reactions r = [])"
    unfolding len .
  with issued_demo_fault [of "''SQLITE_BUSY''"] show ?thesis by blast
qed

end
